theory Spec2Isabelle
  imports Complex_Main "HOL-Library.AList"
begin

section \<open>Data model (shared/schema.ts)\<close>

text \<open>
  A JavaScript \<^verbatim>\<open>number\<close>. The request schemas check numbers with \<^verbatim>\<open>z.number()\<close>
  and a range, never with \<^verbatim>\<open>.int()\<close>, and the store keeps what it is given, so a
  fraction sent by a client reaches the score. Numbers are therefore rationals, with exact
  arithmetic: the rounding of doubles is not modelled (the handlers subtract, multiply by
  ten and add; on whole numbers and on binary fractions such as a quarter that is exact
  in doubles too), and neither are \<^verbatim>\<open>NaN\<close> and the infinities.
\<close>

type_synonym number = rat

text \<open>
  The four tables of \<^verbatim>\<open>shared/schema.ts\<close> as records, with \<^verbatim>\<open>text\<close> as \<open>string\<close>. The
  timestamp columns (\<^verbatim>\<open>createdAt\<close>, \<^verbatim>\<open>joinedAt\<close>, \<^verbatim>\<open>answeredAt\<close>) are filled from the
  wall clock and never read by the server; they are left out. Field names carry the
  table's initial because several tables share \<^verbatim>\<open>id\<close>, \<^verbatim>\<open>roomId\<close> and \<^verbatim>\<open>playerId\<close>.
\<close>

text \<open>
  A parsed JSON value. The text and the options of a generated question are whatever the
  upstream model sent: the server checks their shape only in part, so they are kept as
  JSON values and not as strings. An object lists its properties, each key once.
\<close>

datatype json =
    JNull
  | JBool bool
  | JNum number
  | JStr string
  | JArr "json list"
  | JObj "(string \<times> json) list"

record QuizRoom =
  r_id :: number
  r_roomCode :: string
  r_hostId :: string
  r_topic :: string
  r_questionCount :: number
  r_timePerQuestion :: number
  r_status :: string
  r_currentQuestionIndex :: number

record Question =
  q_id :: number
  q_roomId :: number
  q_questionText :: json
  q_options :: "json list"
  q_correctAnswer :: number
  q_order :: number

record Player =
  p_id :: number
  p_roomId :: number
  p_name :: string
  p_playerId :: string
  p_score :: number
  p_isHost :: bool

record Answer =
  a_id :: number
  a_playerId :: string
  a_questionId :: number
  a_selectedAnswer :: number
  a_isCorrect :: bool
  a_timeToAnswer :: number

text \<open>The insert types: the same rows without the generated \<^verbatim>\<open>id\<close>.\<close>

record InsertQuizRoom =
  ir_roomCode :: string
  ir_hostId :: string
  ir_topic :: string
  ir_questionCount :: number
  ir_timePerQuestion :: number
  ir_status :: string
  ir_currentQuestionIndex :: number

record InsertQuestion =
  iq_roomId :: number
  iq_questionText :: json
  iq_options :: "json list"
  iq_correctAnswer :: number
  iq_order :: number

record InsertPlayer =
  ip_roomId :: number
  ip_name :: string
  ip_playerId :: string
  ip_score :: number
  ip_isHost :: bool

record InsertAnswer =
  ia_playerId :: string
  ia_questionId :: number
  ia_selectedAnswer :: number
  ia_isCorrect :: bool
  ia_timeToAnswer :: number

text \<open>
  \<^verbatim>\<open>Partial<QuizRoom>\<close>, the argument of \<^verbatim>\<open>updateQuizRoom\<close>: every field may be
  absent; a present field overwrites the room's.
\<close>

record QuizRoomUpdates =
  u_id :: "number option"
  u_roomCode :: "string option"
  u_hostId :: "string option"
  u_topic :: "string option"
  u_questionCount :: "number option"
  u_timePerQuestion :: "number option"
  u_status :: "string option"
  u_currentQuestionIndex :: "number option"

definition no_updates :: QuizRoomUpdates where
  "no_updates = \<lparr>u_id = None, u_roomCode = None, u_hostId = None, u_topic = None,
     u_questionCount = None, u_timePerQuestion = None, u_status = None,
     u_currentQuestionIndex = None\<rparr>"

section \<open>The in-memory store (class MemStorage)\<close>

text \<open>
  A JavaScript \<^verbatim>\<open>Map\<close> iterates in insertion order, \<^verbatim>\<open>set\<close> on a present key
  replaces the value in place and \<^verbatim>\<open>delete\<close> removes the entry: an association list
  with \<open>AList.update\<close>, \<open>AList.delete\<close> and \<open>map_of\<close>. \<^verbatim>\<open>Array.from(m.values())\<close> is
  \<open>map snd\<close>.
\<close>

record store =
  quizRooms :: "(string \<times> QuizRoom) list"
  questions :: "(number \<times> Question) list"
  players :: "(string \<times> Player) list"
  answers :: "(number \<times> Answer) list"
  currentRoomId :: number
  currentQuestionId :: number
  currentPlayerId :: number
  currentAnswerId :: number

definition init :: store where
  "init = \<lparr>quizRooms = [], questions = [], players = [], answers = [],
     currentRoomId = 1, currentQuestionId = 1, currentPlayerId = 1, currentAnswerId = 1\<rparr>"

text \<open>\<^verbatim>\<open>x || d\<close> on numbers and on strings: the default replaces a falsy value.\<close>

definition or_num :: "number \<Rightarrow> number \<Rightarrow> number" where
  "or_num x d = (if x = 0 then d else x)"

definition or_str :: "string \<Rightarrow> string \<Rightarrow> string" where
  "or_str x d = (if x = [] then d else x)"

definition createQuizRoom :: "InsertQuizRoom \<Rightarrow> store \<Rightarrow> QuizRoom \<times> store" where
  "createQuizRoom room s =
     (let newRoom = \<lparr>r_id = currentRoomId s,
            r_roomCode = ir_roomCode room,
            r_hostId = ir_hostId room,
            r_topic = ir_topic room,
            r_questionCount = or_num (ir_questionCount room) 10,
            r_timePerQuestion = or_num (ir_timePerQuestion room) 10,
            r_status = or_str (ir_status room) ''waiting'',
            r_currentQuestionIndex = or_num (ir_currentQuestionIndex room) 0\<rparr>
      in (newRoom, s\<lparr>currentRoomId := currentRoomId s + 1,
                      quizRooms := AList.update (ir_roomCode room) newRoom (quizRooms s)\<rparr>))"

definition getQuizRoomByCode :: "store \<Rightarrow> string \<Rightarrow> QuizRoom option" where
  "getQuizRoomByCode s roomCode = map_of (quizRooms s) roomCode"

definition getPlayerById :: "store \<Rightarrow> string \<Rightarrow> Player option" where
  "getPlayerById s playerId = map_of (players s) playerId"

definition getQuizRoomByPlayerId :: "store \<Rightarrow> string \<Rightarrow> QuizRoom option" where
  "getQuizRoomByPlayerId s playerId =
     (case map_of (players s) playerId of
        None \<Rightarrow> None
      | Some player \<Rightarrow> find (\<lambda>room. r_id room = p_roomId player) (map snd (quizRooms s)))"

definition merge_updates :: "QuizRoom \<Rightarrow> QuizRoomUpdates \<Rightarrow> QuizRoom" where
  "merge_updates room u =
     \<lparr>r_id = (case u_id u of None \<Rightarrow> r_id room | Some v \<Rightarrow> v),
      r_roomCode = (case u_roomCode u of None \<Rightarrow> r_roomCode room | Some v \<Rightarrow> v),
      r_hostId = (case u_hostId u of None \<Rightarrow> r_hostId room | Some v \<Rightarrow> v),
      r_topic = (case u_topic u of None \<Rightarrow> r_topic room | Some v \<Rightarrow> v),
      r_questionCount = (case u_questionCount u of None \<Rightarrow> r_questionCount room | Some v \<Rightarrow> v),
      r_timePerQuestion =
        (case u_timePerQuestion u of None \<Rightarrow> r_timePerQuestion room | Some v \<Rightarrow> v),
      r_status = (case u_status u of None \<Rightarrow> r_status room | Some v \<Rightarrow> v),
      r_currentQuestionIndex =
        (case u_currentQuestionIndex u of None \<Rightarrow> r_currentQuestionIndex room | Some v \<Rightarrow> v)\<rparr>"

definition updateQuizRoom :: "string \<Rightarrow> QuizRoomUpdates \<Rightarrow> store \<Rightarrow> QuizRoom option \<times> store" where
  "updateQuizRoom roomCode u s =
     (case map_of (quizRooms s) roomCode of
        None \<Rightarrow> (None, s)
      | Some room \<Rightarrow>
          (let updatedRoom = merge_updates room u
           in (Some updatedRoom,
               s\<lparr>quizRooms := AList.update roomCode updatedRoom (quizRooms s)\<rparr>)))"

definition deleteQuizRoom :: "string \<Rightarrow> store \<Rightarrow> bool \<times> store" where
  "deleteQuizRoom roomCode s =
     (map_of (quizRooms s) roomCode \<noteq> None,
      s\<lparr>quizRooms := AList.delete roomCode (quizRooms s)\<rparr>)"

fun createQuestions :: "InsertQuestion list \<Rightarrow> store \<Rightarrow> Question list \<times> store" where
  "createQuestions [] s = ([], s)"
| "createQuestions (question # rest) s =
     (let newQuestion = \<lparr>q_id = currentQuestionId s,
            q_roomId = iq_roomId question,
            q_questionText = iq_questionText question,
            q_options = iq_options question,
            q_correctAnswer = iq_correctAnswer question,
            q_order = iq_order question\<rparr>;
          s1 = s\<lparr>currentQuestionId := currentQuestionId s + 1,
                 questions := AList.update (q_id newQuestion) newQuestion (questions s)\<rparr>;
          (created, s2) = createQuestions rest s1
      in (newQuestion # created, s2))"

text \<open>\<^verbatim>\<open>Array.prototype.sort\<close> is stable, and so is \<open>sort_key\<close>.\<close>

definition getQuestionsByRoomId :: "store \<Rightarrow> number \<Rightarrow> Question list" where
  "getQuestionsByRoomId s roomId =
     sort_key q_order (filter (\<lambda>q. q_roomId q = roomId) (map snd (questions s)))"

definition getQuestionByRoomAndOrder :: "store \<Rightarrow> number \<Rightarrow> number \<Rightarrow> Question option" where
  "getQuestionByRoomAndOrder s roomId ord =
     find (\<lambda>q. q_roomId q = roomId \<and> q_order q = ord) (map snd (questions s))"

definition getQuestionById :: "store \<Rightarrow> number \<Rightarrow> Question option" where
  "getQuestionById s questionId = map_of (questions s) questionId"

definition createPlayer :: "InsertPlayer \<Rightarrow> store \<Rightarrow> Player \<times> store" where
  "createPlayer player s =
     (let newPlayer = \<lparr>p_id = currentPlayerId s,
            p_roomId = ip_roomId player,
            p_name = ip_name player,
            p_playerId = ip_playerId player,
            p_score = or_num (ip_score player) 0,
            p_isHost = (ip_isHost player \<or> False)\<rparr>
      in (newPlayer, s\<lparr>currentPlayerId := currentPlayerId s + 1,
                        players := AList.update (ip_playerId player) newPlayer (players s)\<rparr>))"

definition by_score_desc :: "Player list \<Rightarrow> Player list" where
  "by_score_desc ps = sort_key (\<lambda>p. - p_score p) ps"

definition getPlayersByRoomId :: "store \<Rightarrow> number \<Rightarrow> Player list" where
  "getPlayersByRoomId s roomId =
     by_score_desc (filter (\<lambda>p. p_roomId p = roomId) (map snd (players s)))"

definition updatePlayerScore :: "string \<Rightarrow> number \<Rightarrow> store \<Rightarrow> Player option \<times> store" where
  "updatePlayerScore playerId score s =
     (case map_of (players s) playerId of
        None \<Rightarrow> (None, s)
      | Some player \<Rightarrow>
          (let updatedPlayer = player\<lparr>p_score := score\<rparr>
           in (Some updatedPlayer,
               s\<lparr>players := AList.update playerId updatedPlayer (players s)\<rparr>)))"

definition deletePlayer :: "string \<Rightarrow> store \<Rightarrow> bool \<times> store" where
  "deletePlayer playerId s =
     (map_of (players s) playerId \<noteq> None,
      s\<lparr>players := AList.delete playerId (players s)\<rparr>)"

definition createAnswer :: "InsertAnswer \<Rightarrow> store \<Rightarrow> Answer \<times> store" where
  "createAnswer answer s =
     (let newAnswer = \<lparr>a_id = currentAnswerId s,
            a_playerId = ia_playerId answer,
            a_questionId = ia_questionId answer,
            a_selectedAnswer = ia_selectedAnswer answer,
            a_isCorrect = ia_isCorrect answer,
            a_timeToAnswer = ia_timeToAnswer answer\<rparr>
      in (newAnswer, s\<lparr>currentAnswerId := currentAnswerId s + 1,
                        answers := AList.update (a_id newAnswer) newAnswer (answers s)\<rparr>))"

definition getAnswersByQuestionId :: "store \<Rightarrow> number \<Rightarrow> Answer list" where
  "getAnswersByQuestionId s questionId =
     filter (\<lambda>a. a_questionId a = questionId) (map snd (answers s))"

definition getAnswersByPlayerId :: "store \<Rightarrow> string \<Rightarrow> Answer list" where
  "getAnswersByPlayerId s playerId =
     filter (\<lambda>a. a_playerId a = playerId) (map snd (answers s))"

definition hasPlayerAnswered :: "store \<Rightarrow> string \<Rightarrow> number \<Rightarrow> bool" where
  "hasPlayerAnswered s playerId questionId =
     list_ex (\<lambda>a. a_playerId a = playerId \<and> a_questionId a = questionId) (map snd (answers s))"

text \<open>
  The deleting loops: each takes the keys from a snapshot of the values and deletes them
  one by one from the live map.
\<close>

definition delete_keys :: "'k list \<Rightarrow> ('k \<times> 'v) list \<Rightarrow> ('k \<times> 'v) list" where
  "delete_keys ks al = fold AList.delete ks al"

definition clearAnswersForPlayer :: "string \<Rightarrow> store \<Rightarrow> bool \<times> store" where
  "clearAnswersForPlayer playerId s =
     (let answersToDelete = filter (\<lambda>a. a_playerId a = playerId) (map snd (answers s))
      in (True, s\<lparr>answers := delete_keys (map a_id answersToDelete) (answers s)\<rparr>))"

fun delete_question_answers :: "Question list \<Rightarrow> (number \<times> Answer) list \<Rightarrow> (number \<times> Answer) list" where
  "delete_question_answers [] al = al"
| "delete_question_answers (question # rest) al =
     (let questionAnswers = filter (\<lambda>a. a_questionId a = q_id question) (map snd al)
      in delete_question_answers rest (delete_keys (map a_id questionAnswers) al))"

definition cleanupRoom :: "string \<Rightarrow> store \<Rightarrow> bool \<times> store" where
  "cleanupRoom roomCode s =
     (case map_of (quizRooms s) roomCode of
        None \<Rightarrow> (False, s)
      | Some room \<Rightarrow>
          (let roomPlayers = filter (\<lambda>p. p_roomId p = r_id room) (map snd (players s));
               s1 = s\<lparr>players := delete_keys (map p_playerId roomPlayers) (players s)\<rparr>;
               roomQuestions = filter (\<lambda>q. q_roomId q = r_id room) (map snd (questions s1));
               s2 = s1\<lparr>questions := delete_keys (map q_id roomQuestions) (questions s1)\<rparr>;
               s3 = s2\<lparr>answers := delete_question_answers roomQuestions (answers s2)\<rparr>;
               roomDeleted = (map_of (quizRooms s3) roomCode \<noteq> None)
           in (roomDeleted, s3\<lparr>quizRooms := AList.delete roomCode (quizRooms s3)\<rparr>)))"

definition cleanupPlayer :: "string \<Rightarrow> store \<Rightarrow> bool \<times> store" where
  "cleanupPlayer playerId s =
     (case map_of (players s) playerId of
        None \<Rightarrow> (False, s)
      | Some player \<Rightarrow>
          (let playerAnswers = filter (\<lambda>a. a_playerId a = playerId) (map snd (answers s));
               s1 = s\<lparr>answers := delete_keys (map a_id playerAnswers) (answers s)\<rparr>;
               playerDeleted = (map_of (players s1) playerId \<noteq> None)
           in (playerDeleted, s1\<lparr>players := AList.delete playerId (players s1)\<rparr>)))"

section \<open>Question generation (services/openai.ts)\<close>

record GeneratedQuestion =
  g_question :: json
  g_options :: "json list"
  g_correctAnswer :: number

definition gq :: "string \<Rightarrow> string list \<Rightarrow> number \<Rightarrow> GeneratedQuestion" where
  "gq text opts c = \<lparr>g_question = JStr text, g_options = map JStr opts, g_correctAnswer = c\<rparr>"

definition FALLBACK_QUESTIONS :: "GeneratedQuestion list" where
  "FALLBACK_QUESTIONS =
     [gq ''What is the capital of France?'' [''London'', ''Berlin'', ''Paris'', ''Madrid''] 2,
      gq ''Which planet is known as the Red Planet?'' [''Venus'', ''Mars'', ''Jupiter'', ''Saturn''] 1,
      gq ''What is the largest ocean on Earth?''
         [''Atlantic Ocean'', ''Indian Ocean'', ''Arctic Ocean'', ''Pacific Ocean''] 3,
      gq ''Who painted the Mona Lisa?''
         [''Vincent van Gogh'', ''Leonardo da Vinci'', ''Pablo Picasso'', ''Michelangelo''] 1,
      gq ''What is the chemical symbol for gold?'' [''Ag'', ''Au'', ''Fe'', ''Cu''] 1,
      gq ''Which year did World War II end?'' [''1943'', ''1944'', ''1945'', ''1946''] 2,
      gq ''What is the main component of the sun?''
         [''Liquid lava'', ''Molten iron'', ''Hot gases'', ''Solid rock''] 2,
      gq ''How many sides does a hexagon have?'' [''5'', ''6'', ''7'', ''8''] 1,
      gq ''Which country is home to the kangaroo?''
         [''New Zealand'', ''South Africa'', ''Australia'', ''India''] 2,
      gq ''What is the largest mammal in the world?''
         [''African Elephant'', ''Blue Whale'', ''Giraffe'', ''Hippopotamus''] 1]"

text \<open>
  The HTTP call, the check of the \<^verbatim>\<open>choices\<close> structure, the regular expression and
  \<^verbatim>\<open>JSON.parse\<close> are the outside world: their outcome is an input of the model. Either one
  of them threw (\<open>UpstreamFailure\<close>) or \<^verbatim>\<open>JSON.parse\<close> returned the value \<^verbatim>\<open>result\<close>.
\<close>

datatype upstream = UpstreamFailure | Parsed json

text \<open>
  A property read \<^verbatim>\<open>v.k\<close>; \<open>None\<close> is \<^verbatim>\<open>undefined\<close>. (On \<^verbatim>\<open>null\<close> the read throws;
  every read below is inside the \<^verbatim>\<open>try\<close> and an undefined property fails the same
  check, so both end in the \<^verbatim>\<open>catch\<close>.)
\<close>

fun js_prop :: "json \<Rightarrow> string \<Rightarrow> json option" where
  "js_prop (JObj kvs) k = map_of kvs k"
| "js_prop _ k = None"

fun truthy :: "json option \<Rightarrow> bool" where
  "truthy None = False"
| "truthy (Some JNull) = False"
| "truthy (Some (JBool b)) = b"
| "truthy (Some (JNum n)) = (n \<noteq> 0)"
| "truthy (Some (JStr t)) = (t \<noteq> [])"
| "truthy (Some (JArr _)) = True"
| "truthy (Some (JObj _)) = True"

text \<open>The callback of \<^verbatim>\<open>result.questions.map\<close>; \<open>None\<close> is its \<^verbatim>\<open>throw\<close>.\<close>

definition validate_question :: "json \<Rightarrow> GeneratedQuestion option" where
  "validate_question q =
     (case (js_prop q ''question'', js_prop q ''options'', js_prop q ''correctAnswer'') of
        (Some question, Some (JArr opts), Some (JNum c)) \<Rightarrow>
          (if \<not> truthy (Some question) \<or> length opts \<noteq> 4 \<or> c < 0 \<or> c > 3 then None
           else Some \<lparr>g_question = question, g_options = opts, g_correctAnswer = c\<rparr>)
      | _ \<Rightarrow> None)"

fun validate_all :: "json list \<Rightarrow> GeneratedQuestion list option" where
  "validate_all [] = Some []"
| "validate_all (q # qs) =
     (case validate_question q of
        None \<Rightarrow> None
      | Some g \<Rightarrow> (case validate_all qs of None \<Rightarrow> None | Some gs \<Rightarrow> Some (g # gs)))"

text \<open>
  \<^verbatim>\<open>xs.slice(0, n)\<close>: the end is truncated towards zero, and a negative end counts from
  the end of the array.
\<close>

definition slice0 :: "'a list \<Rightarrow> number \<Rightarrow> 'a list" where
  "slice0 xs n =
     (let k = (if n < 0 then \<lceil>n\<rceil> else \<lfloor>n\<rfloor>)
      in if k < 0 then take (nat (int (length xs) + k)) xs else take (nat k) xs)"

definition generateQuizQuestions :: "upstream \<Rightarrow> string \<Rightarrow> number \<Rightarrow> GeneratedQuestion list" where
  "generateQuizQuestions up topic questionCount =
     (case up of
        UpstreamFailure \<Rightarrow> slice0 FALLBACK_QUESTIONS questionCount
      | Parsed result \<Rightarrow>
          (case js_prop result ''questions'' of
             Some (JArr qs) \<Rightarrow>
               (case validate_all qs of
                  None \<Rightarrow> slice0 FALLBACK_QUESTIONS questionCount
                | Some validatedQuestions \<Rightarrow> slice0 validatedQuestions questionCount)
           | _ \<Rightarrow> slice0 FALLBACK_QUESTIONS questionCount))"

section \<open>Request schemas (shared/schema.ts)\<close>

text \<open>
  A request body with its fields present and of the declared JSON types; \<open>parse\<close> checks the
  ranges and fills the defaults, and \<open>None\<close> is the \<^verbatim>\<open>ZodError\<close> it throws.
\<close>

record CreateQuizBody =
  cb_topic :: string
  cb_questionCount :: "number option"
  cb_timePerQuestion :: "number option"
  cb_hostId :: string

record CreateQuizRequest =
  c_topic :: string
  c_questionCount :: number
  c_timePerQuestion :: number
  c_hostId :: string

definition createQuizSchema :: "CreateQuizBody \<Rightarrow> CreateQuizRequest option" where
  "createQuizSchema b =
     (let questionCount = (case cb_questionCount b of None \<Rightarrow> 10 | Some n \<Rightarrow> n);
          timePerQuestion = (case cb_timePerQuestion b of None \<Rightarrow> 10 | Some n \<Rightarrow> n)
      in if length (cb_topic b) \<ge> 1 \<and> 5 \<le> questionCount \<and> questionCount \<le> 20
            \<and> 10 \<le> timePerQuestion \<and> timePerQuestion \<le> 60 \<and> length (cb_hostId b) \<ge> 1
         then Some \<lparr>c_topic = cb_topic b, c_questionCount = questionCount,
                    c_timePerQuestion = timePerQuestion, c_hostId = cb_hostId b\<rparr>
         else None)"

record JoinQuizRequest =
  j_roomCode :: string
  j_name :: string
  j_playerId :: string

definition joinQuizSchema :: "JoinQuizRequest \<Rightarrow> JoinQuizRequest option" where
  "joinQuizSchema b =
     (if length (j_roomCode b) = 6 \<and> length (j_name b) \<ge> 1 \<and> length (j_playerId b) \<ge> 1
      then Some b else None)"

record SubmitAnswerRequest =
  sa_playerId :: string
  sa_questionId :: number
  sa_selectedAnswer :: number
  sa_timeToAnswer :: number

definition submitAnswerSchema :: "SubmitAnswerRequest \<Rightarrow> SubmitAnswerRequest option" where
  "submitAnswerSchema b =
     (if length (sa_playerId b) \<ge> 1 \<and> sa_questionId b \<ge> 1 \<and> 0 \<le> sa_selectedAnswer b
         \<and> sa_selectedAnswer b \<le> 3 \<and> sa_timeToAnswer b \<ge> 0
      then Some b else None)"

record CleanupRoomRequest =
  cl_playerId :: string
  cl_isHost :: bool

definition cleanupRoomSchema :: "CleanupRoomRequest \<Rightarrow> CleanupRoomRequest option" where
  "cleanupRoomSchema b =
     (if length (cl_playerId b) \<ge> 1 \<and> cl_isHost b = True then Some b else None)"

record LeaveRoomRequest =
  l_playerId :: string
  l_roomCode :: string

definition leaveRoomSchema :: "LeaveRoomRequest \<Rightarrow> LeaveRoomRequest option" where
  "leaveRoomSchema b =
     (if length (l_playerId b) \<ge> 1 \<and> length (l_roomCode b) = 6 then Some b else None)"

section \<open>The REST handlers (server/routes.ts)\<close>

text \<open>
  A handler takes the request and the store and returns the HTTP reply and the store it
  leaves. \<open>ErrorMessage\<close> stands for the \<^verbatim>\<open>message\<close> of a caught exception, whose text the
  validation library builds.
\<close>

datatype message = Msg string | ErrorMessage

datatype body =
    B_Message message
  | B_Invalid
  | B_Create string QuizRoom
  | B_Join Player QuizRoom "Player list"
  | B_Answer bool number number number message

datatype reply = Reply int body

subsection \<open>Room codes\<close>

text \<open>
  \<^verbatim>\<open>Math.random\<close> is an input: \<open>rnd k\<close> is the value of
  \<^verbatim>\<open>Math.floor(Math.random() * chars.length)\<close> at the \<open>k\<close>-th call within the request.
  \<^verbatim>\<open>charAt\<close> gives the empty string out of range.
\<close>

definition chars :: string where
  "chars = ''ABCDEFGHIJKLMNOPQRSTUVWXYZ0123456789''"

definition charAt :: "string \<Rightarrow> nat \<Rightarrow> string" where
  "charAt str i = (if i < length str then [str ! i] else [])"

definition generateRoomCode :: "(nat \<Rightarrow> nat) \<Rightarrow> nat \<Rightarrow> string" where
  "generateRoomCode rnd pos = concat (map (\<lambda>i. charAt chars (rnd (pos + i))) [0..<6])"

text \<open>
  The \<^verbatim>\<open>do ... while\<close> loop of the create handler, entered with \<open>attempts\<close> codes already
  drawn; it returns the last code drawn and the number of attempts.
\<close>

function roomCodeLoop :: "store \<Rightarrow> (nat \<Rightarrow> nat) \<Rightarrow> nat \<Rightarrow> string \<times> nat" where
  "roomCodeLoop s rnd attempts =
     (let roomCode = generateRoomCode rnd (6 * attempts);
          attempts' = attempts + 1
      in if getQuizRoomByCode s roomCode \<noteq> None \<and> attempts' < 10
         then roomCodeLoop s rnd attempts'
         else (roomCode, attempts'))"
  by pat_completeness auto
termination
  by (relation "measure (\<lambda>(s, rnd, attempts). 10 - attempts)") auto

declare roomCodeLoop.simps [simp del]

subsection \<open>POST /api/quiz/create\<close>

definition questionsToInsert :: "number \<Rightarrow> GeneratedQuestion list \<Rightarrow> InsertQuestion list" where
  "questionsToInsert roomId generatedQuestions =
     map (\<lambda>(index, q). \<lparr>iq_roomId = roomId, iq_questionText = g_question q,
                          iq_options = g_options q, iq_correctAnswer = g_correctAnswer q,
                          iq_order = of_nat index\<rparr>)
         (enumerate 0 generatedQuestions)"

definition create_handler ::
  "CreateQuizBody \<Rightarrow> (nat \<Rightarrow> nat) \<Rightarrow> upstream \<Rightarrow> store \<Rightarrow> reply \<times> store" where
  "create_handler b rnd up s =
     (case createQuizSchema b of
        None \<Rightarrow> (Reply 500 (B_Message ErrorMessage), s)
      | Some d \<Rightarrow>
          (let (roomCode, attempts) = roomCodeLoop s rnd 0
           in if attempts \<ge> 10
              then (Reply 500 (B_Message (Msg ''Failed to generate unique room code'')), s)
              else
                (let (room, s1) = createQuizRoom
                       \<lparr>ir_roomCode = roomCode, ir_hostId = c_hostId d, ir_topic = c_topic d,
                        ir_questionCount = c_questionCount d,
                        ir_timePerQuestion = c_timePerQuestion d,
                        ir_status = ''waiting'', ir_currentQuestionIndex = 0\<rparr> s;
                     generatedQuestions = generateQuizQuestions up (c_topic d) (c_questionCount d);
                     (created, s2) = createQuestions (questionsToInsert (r_id room) generatedQuestions) s1;
                     (host, s3) = createPlayer
                       \<lparr>ip_roomId = r_id room, ip_name = ''Host'', ip_playerId = c_hostId d,
                        ip_score = 0, ip_isHost = True\<rparr> s2
                 in (Reply 200 (B_Create roomCode room), s3))))"

subsection \<open>POST /api/quiz/join\<close>

definition join_handler :: "JoinQuizRequest \<Rightarrow> store \<Rightarrow> reply \<times> store" where
  "join_handler b s =
     (case joinQuizSchema b of
        None \<Rightarrow> (Reply 500 (B_Message ErrorMessage), s)
      | Some d \<Rightarrow>
          (case getQuizRoomByCode s (j_roomCode d) of
             None \<Rightarrow> (Reply 404 (B_Message (Msg ''Room not found'')), s)
           | Some room \<Rightarrow>
               if r_status room \<noteq> ''waiting''
               then (Reply 400 (B_Message (Msg ''Quiz has already started'')), s)
               else
                 (let existingPlayer = getPlayerById s (j_playerId d)
                  in if (case existingPlayer of None \<Rightarrow> False
                         | Some e \<Rightarrow> p_roomId e = r_id room)
                     then (Reply 400 (B_Message (Msg ''Player already joined this room'')), s)
                     else
                       (let s1 = (if existingPlayer \<noteq> None
                                  then snd (cleanupPlayer (j_playerId d) s) else s);
                            (player, s2) = createPlayer
                              \<lparr>ip_roomId = r_id room, ip_name = j_name d,
                               ip_playerId = j_playerId d, ip_score = 0, ip_isHost = False\<rparr> s1;
                            roster = getPlayersByRoomId s2 (r_id room)
                        in (Reply 200 (B_Join player room roster), s2)))))"

subsection \<open>POST /api/quiz/clear-answers\<close>

text \<open>The body's \<^verbatim>\<open>playerId\<close> is read unvalidated; absent or empty it is falsy.\<close>

definition clear_answers_handler :: "string option \<Rightarrow> store \<Rightarrow> reply \<times> store" where
  "clear_answers_handler playerId s =
     (case playerId of
        None \<Rightarrow> (Reply 400 (B_Message (Msg ''Player ID is required'')), s)
      | Some pid \<Rightarrow>
          if pid = [] then (Reply 400 (B_Message (Msg ''Player ID is required'')), s)
          else (Reply 200 (B_Message (Msg ''Answers cleared successfully'')),
                snd (clearAnswersForPlayer pid s)))"

subsection \<open>POST /api/quiz/answer\<close>

definition answer_points :: "store \<Rightarrow> string \<Rightarrow> bool \<Rightarrow> number \<Rightarrow> number" where
  "answer_points s playerId isCorrect timeToAnswer =
     (if isCorrect
      then (let maxTime = (case getQuizRoomByPlayerId s playerId of
                             None \<Rightarrow> 10
                           | Some room \<Rightarrow> or_num (r_timePerQuestion room) 10);
                timeBonus = max 0 (maxTime - timeToAnswer)
            in 100 + timeBonus * 10)
      else 0)"

definition answer_handler :: "SubmitAnswerRequest \<Rightarrow> store \<Rightarrow> reply \<times> store" where
  "answer_handler b s =
     (case submitAnswerSchema b of
        None \<Rightarrow> (Reply 500 (B_Message ErrorMessage), s)
      | Some d \<Rightarrow>
          (case getPlayerById s (sa_playerId d) of
             None \<Rightarrow> (Reply 404 (B_Message (Msg ''Player not found'')), s)
           | Some player \<Rightarrow>
               if hasPlayerAnswered s (sa_playerId d) (sa_questionId d)
               then (Reply 400 (B_Message (Msg ''Already answered this question'')), s)
               else
                 (case getQuestionById s (sa_questionId d) of
                    None \<Rightarrow> (Reply 404 (B_Message (Msg ''Question not found'')), s)
                  | Some question \<Rightarrow>
                      if q_roomId question \<noteq> p_roomId player
                      then (Reply 400 (B_Message (Msg ''Question does not belong to this room'')), s)
                      else
                        (let isCorrect = (sa_selectedAnswer d = q_correctAnswer question);
                             points = answer_points s (sa_playerId d) isCorrect (sa_timeToAnswer d);
                             (answer, s1) = createAnswer
                               \<lparr>ia_playerId = sa_playerId d, ia_questionId = q_id question,
                                ia_selectedAnswer = sa_selectedAnswer d, ia_isCorrect = isCorrect,
                                ia_timeToAnswer = sa_timeToAnswer d\<rparr> s;
                             (updatedPlayer, s2) =
                               updatePlayerScore (sa_playerId d) (p_score player + points) s1;
                             totalScore = (case updatedPlayer of None \<Rightarrow> 0
                                           | Some u \<Rightarrow> or_num (p_score u) 0)
                         in (Reply 200 (B_Answer isCorrect points totalScore (q_correctAnswer question)
                                          (Msg (if isCorrect then ''Correct answer!''
                                                else ''Incorrect answer''))),
                             s2)))))"

subsection \<open>POST /api/quiz/:roomCode/cleanup\<close>

definition cleanup_handler :: "string \<Rightarrow> CleanupRoomRequest \<Rightarrow> store \<Rightarrow> reply \<times> store" where
  "cleanup_handler roomCode b s =
     (case cleanupRoomSchema b of
        None \<Rightarrow> (Reply 400 B_Invalid, s)
      | Some d \<Rightarrow>
          (case getQuizRoomByCode s roomCode of
             None \<Rightarrow> (Reply 404 (B_Message (Msg ''Room not found'')), s)
           | Some room \<Rightarrow>
               if r_hostId room \<noteq> cl_playerId d
               then (Reply 403 (B_Message (Msg ''Only the room host can cleanup'')), s)
               else
                 (let (success, s1) = cleanupRoom roomCode s
                  in if \<not> success
                     then (Reply 500 (B_Message (Msg ''Failed to cleanup room'')), s1)
                     else (Reply 200 (B_Message (Msg ''Room cleaned up successfully'')), s1))))"

subsection \<open>POST /api/quiz/player/leave\<close>

definition leave_handler :: "LeaveRoomRequest \<Rightarrow> store \<Rightarrow> reply \<times> store" where
  "leave_handler b s =
     (case leaveRoomSchema b of
        None \<Rightarrow> (Reply 400 B_Invalid, s)
      | Some d \<Rightarrow>
          (case getPlayerById s (l_playerId d) of
             None \<Rightarrow> (Reply 200 (B_Message (Msg ''Player already removed'')), s)
           | Some player \<Rightarrow>
               (let (success, s1) = cleanupPlayer (l_playerId d) s
                in if \<not> success
                   then (Reply 500 (B_Message (Msg ''Failed to remove player'')), s1)
                   else (Reply 200 (B_Message (Msg ''Player removed successfully'')), s1))))"

section \<open>The socket handlers (server/routes.ts)\<close>

text \<open>
  A socket message carries its \<^verbatim>\<open>type\<close> and the fields the handlers read. What a
  handler does to the registry of live connections and what it sends are returned as a
  list of effects, in order; who is connected is not part of the model, and neither is
  the \<^verbatim>\<open>close\<close> handler, which only forgets a connection. An unparseable message or one
  of another type is \<open>Unknown\<close>: the \<^verbatim>\<open>switch\<close> has no case for it.
\<close>

datatype ws_type = JoinRoom | LeaveRoom | CleanupRoom | StartQuiz | NextQuestion | QuizFinished | Unknown

record ws_message =
  m_type :: ws_type
  m_roomCode :: string
  m_playerId :: string
  m_isHost :: bool

datatype event =
    PlayerJoinedEv "Player list"
  | PlayerLeftEv string "Player list"
  | QuizStartedEv "Question option" number number number
  | NextQuestionEv "Question option" number number number
  | QuizFinishedEv "Player list"

datatype hub_effect =
    Register string string bool
  | Unregister string
  | Broadcast string event "string option"
  | CloseRoomClients string

text \<open>\<^verbatim>\<open>xs[i]\<close>: \<^verbatim>\<open>undefined\<close> out of range and at an index that is not whole.\<close>

definition at_index :: "'a list \<Rightarrow> number \<Rightarrow> 'a option" where
  "at_index xs i =
     (if of_int \<lfloor>i\<rfloor> = i \<and> 0 \<le> i \<and> i < of_nat (length xs)
      then Some (xs ! nat \<lfloor>i\<rfloor>) else None)"

definition socket_handler :: "ws_message \<Rightarrow> store \<Rightarrow> hub_effect list \<times> store" where
  "socket_handler m s =
     (case m_type m of
        JoinRoom \<Rightarrow>
          (case getQuizRoomByCode s (m_roomCode m) of
             None \<Rightarrow> ([Register (m_playerId m) (m_roomCode m) (m_isHost m)], s)
           | Some room \<Rightarrow>
               ([Register (m_playerId m) (m_roomCode m) (m_isHost m),
                 Broadcast (m_roomCode m) (PlayerJoinedEv (getPlayersByRoomId s (r_id room)))
                   (Some (m_playerId m))], s))
      | LeaveRoom \<Rightarrow>
          (let s1 = snd (cleanupPlayer (m_playerId m) s)
           in (case getQuizRoomByCode s1 (m_roomCode m) of
                 None \<Rightarrow> ([Unregister (m_playerId m)], s1)
               | Some leaveRoom \<Rightarrow>
                   ([Unregister (m_playerId m),
                     Broadcast (m_roomCode m)
                       (PlayerLeftEv (m_playerId m) (getPlayersByRoomId s1 (r_id leaveRoom))) None],
                    s1)))
      | CleanupRoom \<Rightarrow>
          (if m_isHost m
           then ([CloseRoomClients (m_roomCode m)], snd (cleanupRoom (m_roomCode m) s))
           else ([], s))
      | StartQuiz \<Rightarrow>
          (if m_isHost m
           then (case getQuizRoomByCode s (m_roomCode m) of
                   None \<Rightarrow> ([], s)
                 | Some room \<Rightarrow>
                     (let s1 = snd (updateQuizRoom (m_roomCode m)
                                      (no_updates\<lparr>u_status := Some ''active''\<rparr>) s);
                          qs = getQuestionsByRoomId s1 (r_id room)
                      in ([Broadcast (m_roomCode m)
                             (QuizStartedEv (at_index qs 0) (or_num (r_timePerQuestion room) 10) 0
                                (of_nat (length qs))) None], s1)))
           else ([], s))
      | NextQuestion \<Rightarrow>
          (if m_isHost m
           then (case getQuizRoomByCode s (m_roomCode m) of
                   None \<Rightarrow> ([], s)
                 | Some room \<Rightarrow>
                     (let nextIndex = r_currentQuestionIndex room + 1;
                          qs = getQuestionsByRoomId s (r_id room)
                      in if nextIndex < of_nat (length qs)
                         then ([Broadcast (m_roomCode m)
                                  (NextQuestionEv (at_index qs nextIndex)
                                     (or_num (r_timePerQuestion room) 10) nextIndex
                                     (of_nat (length qs))) None],
                               snd (updateQuizRoom (m_roomCode m)
                                      (no_updates\<lparr>u_currentQuestionIndex := Some nextIndex\<rparr>) s))
                         else
                           (let s1 = snd (updateQuizRoom (m_roomCode m)
                                            (no_updates\<lparr>u_status := Some ''finished''\<rparr>) s)
                            in ([Broadcast (m_roomCode m)
                                   (QuizFinishedEv (by_score_desc (getPlayersByRoomId s1 (r_id room))))
                                   None], s1))))
           else ([], s))
      | QuizFinished \<Rightarrow>
          (if m_isHost m
           then (case getQuizRoomByCode s (m_roomCode m) of
                   None \<Rightarrow> ([], s)
                 | Some room \<Rightarrow>
                     (let s1 = snd (updateQuizRoom (m_roomCode m)
                                      (no_updates\<lparr>u_status := Some ''finished''\<rparr>) s)
                      in ([Broadcast (m_roomCode m)
                             (QuizFinishedEv (by_score_desc (getPlayersByRoomId s1 (r_id room))))
                             None], s1)))
           else ([], s))
      | Unknown \<Rightarrow> ([], s))"

section \<open>The server as a transition system\<close>

text \<open>
  Every request that can change the store; the \<^verbatim>\<open>GET\<close> endpoints only read it. Requests
  run one after the other, each to completion.
\<close>

datatype request =
    PostCreate CreateQuizBody "nat \<Rightarrow> nat" upstream
  | PostJoin JoinQuizRequest
  | PostClearAnswers "string option"
  | PostAnswer SubmitAnswerRequest
  | PostCleanup string CleanupRoomRequest
  | PostLeave LeaveRoomRequest
  | Socket ws_message

datatype outcome = Http reply | Hub "hub_effect list"

fun step :: "request \<Rightarrow> store \<Rightarrow> outcome \<times> store" where
  "step (PostCreate b rnd up) s = (let (r, s') = create_handler b rnd up s in (Http r, s'))"
| "step (PostJoin b) s = (let (r, s') = join_handler b s in (Http r, s'))"
| "step (PostClearAnswers b) s = (let (r, s') = clear_answers_handler b s in (Http r, s'))"
| "step (PostAnswer b) s = (let (r, s') = answer_handler b s in (Http r, s'))"
| "step (PostCleanup roomCode b) s = (let (r, s') = cleanup_handler roomCode b s in (Http r, s'))"
| "step (PostLeave b) s = (let (r, s') = leave_handler b s in (Http r, s'))"
| "step (Socket m) s = (let (es, s') = socket_handler m s in (Hub es, s'))"

fun run :: "request list \<Rightarrow> store \<Rightarrow> store" where
  "run [] s = s"
| "run (r # rs) s = run rs (snd (step r s))"

inductive reachable :: "store \<Rightarrow> bool" where
  reachable_init: "reachable init"
| reachable_step: "reachable s \<Longrightarrow> reachable (snd (step r s))"

section \<open>Invariants and predicates of the statements\<close>

text \<open>What the validation of a generated question guarantees about it.\<close>

definition question_shape :: "GeneratedQuestion \<Rightarrow> bool" where
  "question_shape g \<longleftrightarrow>
     truthy (Some (g_question g)) \<and> length (g_options g) = 4
     \<and> 0 \<le> g_correctAnswer g \<and> g_correctAnswer g \<le> 3"

text \<open>One turn of the loop of \<open>createQuestions\<close>, as a store update.\<close>

definition addQuestion :: "InsertQuestion \<Rightarrow> store \<Rightarrow> store" where
  "addQuestion question s =
     s\<lparr>currentQuestionId := currentQuestionId s + 1,
       questions := AList.update (currentQuestionId s)
          \<lparr>q_id = currentQuestionId s, q_roomId = iq_roomId question,
           q_questionText = iq_questionText question, q_options = iq_options question,
           q_correctAnswer = iq_correctAnswer question, q_order = iq_order question\<rparr>
          (questions s)\<rparr>"

text \<open>
  The invariant of the store. In each map the keys are distinct (a \<^verbatim>\<open>Map\<close> holds a key
  once) and, for questions, players and answers, the key is the record's own id or
  identity; ids are below the counter that hands them out. Every room has a non-zero time
  per question, every player a non-negative score and a stored room, and no two answers
  have the same player and question.
\<close>

definition rooms_ok :: "store \<Rightarrow> bool" where
  "rooms_ok s \<longleftrightarrow>
     distinct (map fst (quizRooms s))
     \<and> (\<forall>(k, r) \<in> set (quizRooms s). r_id r < currentRoomId s \<and> r_timePerQuestion r \<noteq> 0)"

definition questions_ok :: "store \<Rightarrow> bool" where
  "questions_ok s \<longleftrightarrow>
     distinct (map fst (questions s))
     \<and> (\<forall>(k, q) \<in> set (questions s). q_id q = k \<and> k < currentQuestionId s)"

definition players_ok :: "store \<Rightarrow> bool" where
  "players_ok s \<longleftrightarrow>
     distinct (map fst (players s))
     \<and> (\<forall>(k, p) \<in> set (players s).
           p_playerId p = k \<and> p_id p < currentPlayerId s \<and> 0 \<le> p_score p
           \<and> (\<exists>r \<in> snd ` set (quizRooms s). r_id r = p_roomId p))"

definition answer_key :: "number \<times> Answer \<Rightarrow> string \<times> number" where
  "answer_key x = (a_playerId (snd x), a_questionId (snd x))"

definition answers_ok :: "store \<Rightarrow> bool" where
  "answers_ok s \<longleftrightarrow>
     distinct (map fst (answers s))
     \<and> (\<forall>(k, a) \<in> set (answers s). a_id a = k \<and> k < currentAnswerId s)
     \<and> distinct (map answer_key (answers s))"

definition store_ok :: "store \<Rightarrow> bool" where
  "store_ok s \<longleftrightarrow> rooms_ok s \<and> questions_ok s \<and> players_ok s \<and> answers_ok s"

text \<open>The store a successful create request leaves.\<close>

definition created_store :: "CreateQuizRequest \<Rightarrow> string \<Rightarrow> upstream \<Rightarrow> store \<Rightarrow> store" where
  "created_store d roomCode up s =
     snd (createPlayer
            \<lparr>ip_roomId = currentRoomId s, ip_name = ''Host'', ip_playerId = c_hostId d,
             ip_score = 0, ip_isHost = True\<rparr>
            (fold addQuestion
               (questionsToInsert (currentRoomId s)
                  (generateQuizQuestions up (c_topic d) (c_questionCount d)))
               (snd (createQuizRoom
                  \<lparr>ir_roomCode = roomCode, ir_hostId = c_hostId d, ir_topic = c_topic d,
                   ir_questionCount = c_questionCount d,
                   ir_timePerQuestion = c_timePerQuestion d,
                   ir_status = ''waiting'', ir_currentQuestionIndex = 0\<rparr> s))))"

text \<open>The store a successful answer submission leaves.\<close>

definition answered_store :: "SubmitAnswerRequest \<Rightarrow> Player \<Rightarrow> Question \<Rightarrow> store \<Rightarrow> store" where
  "answered_store d player question s =
     snd (updatePlayerScore (sa_playerId d)
            (p_score player
               + answer_points s (sa_playerId d) (sa_selectedAnswer d = q_correctAnswer question)
                   (sa_timeToAnswer d))
            (snd (createAnswer
               \<lparr>ia_playerId = sa_playerId d, ia_questionId = q_id question,
                ia_selectedAnswer = sa_selectedAnswer d,
                ia_isCorrect = (sa_selectedAnswer d = q_correctAnswer question),
                ia_timeToAnswer = sa_timeToAnswer d\<rparr> s)))"

text \<open>The conditions under which the answer handler accepts a submission.\<close>

definition accepted :: "SubmitAnswerRequest \<Rightarrow> store \<Rightarrow> bool" where
  "accepted b s \<longleftrightarrow>
     submitAnswerSchema b = Some b
     \<and> (case getPlayerById s (sa_playerId b) of
          None \<Rightarrow> False
        | Some player \<Rightarrow>
            \<not> hasPlayerAnswered s (sa_playerId b) (sa_questionId b)
            \<and> (case getQuestionById s (sa_questionId b) of
                  None \<Rightarrow> False
                | Some question \<Rightarrow> q_roomId question = p_roomId player))"

definition status_of :: "reply \<Rightarrow> int" where
  "status_of r = (case r of Reply c b \<Rightarrow> c)"

text \<open>A start message that the socket handler acts on, for the room code \<open>c\<close>.\<close>

definition is_start :: "string \<Rightarrow> request \<Rightarrow> bool" where
  "is_start c r =
     (case r of
        Socket m \<Rightarrow> m_type m = StartQuiz \<and> m_isHost m \<and> m_roomCode m = c
      | _ \<Rightarrow> False)"

text \<open>
  What one request can do to the room map: nothing, create a waiting room with a fresh id
  under a free code, delete the room of a code, or rewrite the status or the question
  index of the room of a code. The status written is \<^verbatim>\<open>active\<close> only by a start message
  and \<^verbatim>\<open>finished\<close> otherwise.
\<close>

definition rooms_step :: "request \<Rightarrow> store \<Rightarrow> store \<Rightarrow> bool" where
  "rooms_step r s s' \<longleftrightarrow>
     (quizRooms s' = quizRooms s \<and> currentRoomId s' = currentRoomId s)
     \<or> (\<exists>code room. map_of (quizRooms s) code = None
           \<and> quizRooms s' = AList.update code room (quizRooms s)
           \<and> r_id room = currentRoomId s \<and> r_status room = ''waiting''
           \<and> currentRoomId s' = currentRoomId s + 1)
     \<or> (\<exists>code. quizRooms s' = AList.delete code (quizRooms s)
           \<and> currentRoomId s' = currentRoomId s)
     \<or> (\<exists>code room room'. map_of (quizRooms s) code = Some room
           \<and> quizRooms s' = AList.update code room' (quizRooms s)
           \<and> r_id room' = r_id room
           \<and> (r_status room' = r_status room
                \<or> r_status room' = ''finished''
                \<or> r_status room' = ''active'' \<and> is_start code r)
           \<and> currentRoomId s' = currentRoomId s)"

text \<open>Room ids are below the counter and no two stored rooms share an id.\<close>

definition room_ids_ok :: "store \<Rightarrow> bool" where
  "room_ids_ok s \<longleftrightarrow>
     distinct (map fst (quizRooms s))
     \<and> distinct (map (\<lambda>x. r_id (snd x)) (quizRooms s))
     \<and> (\<forall>x \<in> set (quizRooms s). r_id (snd x) < currentRoomId s)"

text \<open>
  The room with id \<open>i\<close>, as long as it is stored, is stored under the code \<open>c\<close> and has
  a status in \<open>A\<close>; the id is below the counter, so no later room gets it.
\<close>

definition room_status_in :: "string set \<Rightarrow> string \<Rightarrow> number \<Rightarrow> store \<Rightarrow> bool" where
  "room_status_in A c i s \<longleftrightarrow>
     i < currentRoomId s
     \<and> (\<forall>x \<in> set (quizRooms s). r_id (snd x) = i \<longrightarrow> fst x = c \<and> r_status (snd x) \<in> A)"



section \<open>Example data\<close>

text \<open>
  A create request, an upstream reply with an empty question list, and random draws that
  give the code \<^verbatim>\<open>AAAAAA\<close> nine times and \<^verbatim>\<open>BBBBBB\<close> the tenth time.
\<close>

definition space_body :: CreateQuizBody where
  "space_body = \<lparr>cb_topic = ''Space'', cb_questionCount = Some 5,
     cb_timePerQuestion = Some 15, cb_hostId = ''h1''\<rparr>"

definition empty_reply :: upstream where
  "empty_reply = Parsed (JObj [(''questions'', JArr [])])"

definition rnd_collide :: "nat \<Rightarrow> nat" where
  "rnd_collide k = (if k < 54 then 0 else 1)"

text \<open>
  A small run: a create request answered upstream with one question, a join by \<^verbatim>\<open>p1\<close>,
  the start of the quiz, a correct answer by \<^verbatim>\<open>p1\<close> after 3 of 15 seconds, and the end
  of the quiz.
\<close>

definition one_question :: upstream where
  "one_question = Parsed (JObj [(''questions'', JArr [JObj
     [(''question'', JStr ''Q''),
      (''options'', JArr [JStr ''a'', JStr ''b'', JStr ''c'', JStr ''d'']),
      (''correctAnswer'', JNum 2)]])])"

definition req_create :: request where
  "req_create = PostCreate space_body (\<lambda>k. 0) one_question"

definition join_p1 :: JoinQuizRequest where
  "join_p1 = \<lparr>j_roomCode = ''AAAAAA'', j_name = ''Alice'', j_playerId = ''p1''\<rparr>"

definition host_msg :: "ws_type \<Rightarrow> ws_message" where
  "host_msg t = \<lparr>m_type = t, m_roomCode = ''AAAAAA'', m_playerId = ''h1'', m_isHost = True\<rparr>"

definition answer_p1 :: SubmitAnswerRequest where
  "answer_p1 = \<lparr>sa_playerId = ''p1'', sa_questionId = 1, sa_selectedAnswer = 2,
     sa_timeToAnswer = 3\<rparr>"

definition s_created :: store where
  "s_created = run [req_create] init"

definition s_waiting :: store where
  "s_waiting = run [req_create, PostJoin join_p1] init"

definition s_active :: store where
  "s_active = run [req_create, PostJoin join_p1, Socket (host_msg StartQuiz)] init"

definition s_answered :: store where
  "s_answered = run [req_create, PostJoin join_p1, Socket (host_msg StartQuiz),
     PostAnswer answer_p1] init"

definition s_finished :: store where
  "s_finished = run [req_create, PostJoin join_p1, Socket (host_msg StartQuiz),
     PostAnswer answer_p1, Socket (host_msg QuizFinished)] init"

text \<open>A cleanup request and a cleanup message of the player \<^verbatim>\<open>p1\<close>, who is not the host.\<close>

definition cleanup_p1 :: CleanupRoomRequest where
  "cleanup_p1 = \<lparr>cl_playerId = ''p1'', cl_isHost = True\<rparr>"

definition p1_msg :: "ws_type \<Rightarrow> bool \<Rightarrow> ws_message" where
  "p1_msg t h = \<lparr>m_type = t, m_roomCode = ''AAAAAA'', m_playerId = ''p1'', m_isHost = h\<rparr>"

text \<open>
  A create request by \<^verbatim>\<open>p1\<close>, who is a player of the room \<^verbatim>\<open>AAAAAA\<close> and has answered
  there; the random draws give the code \<^verbatim>\<open>BBBBBB\<close>.
\<close>

definition p1_body :: CreateQuizBody where
  "p1_body = \<lparr>cb_topic = ''Stars'', cb_questionCount = Some 5,
     cb_timePerQuestion = Some 10, cb_hostId = ''p1''\<rparr>"


definition join_short_code :: JoinQuizRequest where
  "join_short_code = \<lparr>j_roomCode = ''ABC'', j_name = ''Alice'', j_playerId = ''p1''\<rparr>"

text \<open>An upstream reply whose only question has a number as its text and as its options.\<close>

definition number_question :: upstream where
  "number_question = Parsed (JObj [(''questions'', JArr [JObj
     [(''question'', JNum 7),
      (''options'', JArr [JNum 1, JNum 2, JNum 3, JNum 4]),
      (''correctAnswer'', JNum 1)]])])"

section \<open>Auxiliary facts\<close>

subsection \<open>Association lists\<close>

lemma set_delete: "set (AList.delete k al) = {x \<in> set al. fst x \<noteq> k}"
  by (auto simp: AList.delete_eq)

lemma set_delete_keys: "set (delete_keys ks al) = {x \<in> set al. fst x \<notin> set ks}"
  unfolding delete_keys_def
  by (induction ks arbitrary: al) (auto simp: set_delete)

lemma distinct_delete_keys:
  "distinct (map fst al) \<Longrightarrow> distinct (map fst (delete_keys ks al))"
  unfolding delete_keys_def
  by (induction ks arbitrary: al) (auto simp: distinct_delete)

lemma delete_keys_filter: "delete_keys ks al = filter (\<lambda>x. fst x \<notin> set ks) al"
  unfolding delete_keys_def
  by (induction ks arbitrary: al) (auto simp: AList.delete_eq case_prod_beta intro: filter_cong)

lemma set_update_distinct:
  "distinct (map fst al) \<Longrightarrow> set (AList.update k v al) = insert (k, v) {x \<in> set al. fst x \<noteq> k}"
  by (induction al) (auto simp: rev_image_eqI)

lemma set_update_subset: "set (AList.update k v al) \<subseteq> insert (k, v) (set al)"
  by (induction al) auto

lemma map_of_delete_keys:
  "map_of (delete_keys ks al) k = (if k \<in> set ks then None else map_of al k)"
  unfolding delete_keys_def
  by (induction ks arbitrary: al) (auto simp: AList.delete_conv')

subsection \<open>Question generation\<close>

lemma validate_question_shape: "validate_question q = Some g \<Longrightarrow> question_shape g"
  by (auto simp: validate_question_def question_shape_def
      split: option.splits json.splits if_splits)

lemma validate_all_shape:
  "validate_all qs = Some gs \<Longrightarrow> length gs = length qs \<and> (\<forall>g \<in> set gs. question_shape g)"
  by (induction qs arbitrary: gs)
     (auto split: option.splits dest: validate_question_shape)

lemma fallback_shape: "\<forall>g \<in> set FALLBACK_QUESTIONS. question_shape g"
  by (simp add: FALLBACK_QUESTIONS_def question_shape_def gq_def)

lemma fallback_length: "length FALLBACK_QUESTIONS = 10"
  by (simp add: FALLBACK_QUESTIONS_def)

lemma slice0_nonneg: "0 \<le> n \<Longrightarrow> slice0 xs n = take (nat \<lfloor>n\<rfloor>) xs"
  by (simp add: slice0_def Let_def)

subsection \<open>The room-code loop\<close>

lemma roomCodeLoop_unfold:
  "roomCodeLoop s rnd attempts =
     (if getQuizRoomByCode s (generateRoomCode rnd (6 * attempts)) \<noteq> None \<and> attempts + 1 < 10
      then roomCodeLoop s rnd (attempts + 1)
      else (generateRoomCode rnd (6 * attempts), attempts + 1))"
  by (subst roomCodeLoop.simps) (simp add: Let_def)

lemma roomCodeLoop_free:
  "roomCodeLoop s rnd a = (code, n) \<Longrightarrow> n < 10 \<Longrightarrow> getQuizRoomByCode s code = None"
proof (induction s rnd a rule: roomCodeLoop.induct)
  case (1 s rnd attempts)
  show ?case
  proof (cases "getQuizRoomByCode s (generateRoomCode rnd (6 * attempts)) \<noteq> None \<and> attempts + 1 < 10")
    case True
    have "roomCodeLoop s rnd (attempts + 1) = (code, n)"
      using "1.prems"(1) True by (subst (asm) roomCodeLoop_unfold) simp
    then show ?thesis
      using "1.IH" [OF refl refl True] "1.prems"(2) by blast
  next
    case False
    have "(generateRoomCode rnd (6 * attempts), attempts + 1) = (code, n)"
      using "1.prems"(1) False by (subst (asm) roomCodeLoop_unfold) auto
    then show ?thesis
      using False "1.prems"(2) by auto
  qed
qed

section \<open>Question generation returns at most the requested count\<close>

text \<open>
  Claim C4 says that \<open>generateQuizQuestions\<close> returns exactly \<open>count\<close> items, each with
  a question string, also when it falls back. The fallback list has ten entries and
  nothing pads a short list, so with a count of 15 and a failed upstream call the function
  returns ten questions. And a reply with a single question whose text and options are
  numbers passes the validation: it is returned as it is, one item for a count of 5.
\<close>

theorem generateQuizQuestions_fallback_short:
  "length (generateQuizQuestions UpstreamFailure ''X'' 15) \<noteq> 15
   \<and> generateQuizQuestions number_question ''X'' 5
       = [\<lparr>g_question = JNum 7, g_options = [JNum 1, JNum 2, JNum 3, JNum 4],
           g_correctAnswer = 1\<rparr>]"
proof -
  have "length (generateQuizQuestions UpstreamFailure ''X'' 15) \<noteq> 15"
    by (simp add: generateQuizQuestions_def slice0_def fallback_length)
  moreover have "generateQuizQuestions number_question ''X'' 5
       = [\<lparr>g_question = JNum 7, g_options = [JNum 1, JNum 2, JNum 3, JNum 4],
           g_correctAnswer = 1\<rparr>]"
    by code_simp
  ultimately show ?thesis by simp
qed

text \<open>
  Claim C4, amended. For a count between 5 and 20 the function always returns a list (it
  has no failing branch) of at most \<open>count\<close> items, each with a question value that is
  not falsy, exactly four options and a correct answer between 0 and 3. When the upstream
  call fails, or its reply has no valid question array, the result is the first
  \<open>min count 10\<close> fallback questions; when the reply holds \<open>n\<close> valid questions, the
  result is the first \<open>min count n\<close> of them.
\<close>

theorem generateQuizQuestions_at_most_count:
  assumes "5 \<le> n" and "n \<le> 20"
  shows "length (generateQuizQuestions up topic n) \<le> nat \<lfloor>n\<rfloor>
     \<and> (\<forall>g \<in> set (generateQuizQuestions up topic n). question_shape g)
     \<and> generateQuizQuestions UpstreamFailure topic n = take (nat \<lfloor>n\<rfloor>) FALLBACK_QUESTIONS
     \<and> length (generateQuizQuestions UpstreamFailure topic n) = min (nat \<lfloor>n\<rfloor>) 10
     \<and> (\<forall>result qs gs. up = Parsed result \<and> js_prop result ''questions'' = Some (JArr qs)
             \<and> validate_all qs = Some gs
           \<longrightarrow> generateQuizQuestions up topic n = take (nat \<lfloor>n\<rfloor>) gs
               \<and> length (generateQuizQuestions up topic n) = min (nat \<lfloor>n\<rfloor>) (length qs))
     \<and> (\<forall>result. up = Parsed result
           \<and> (\<forall>qs. js_prop result ''questions'' = Some (JArr qs) \<longrightarrow> validate_all qs = None)
           \<longrightarrow> generateQuizQuestions up topic n = take (nat \<lfloor>n\<rfloor>) FALLBACK_QUESTIONS)"
proof -
  have n0: "0 \<le> n" using assms by simp
  have len: "length (generateQuizQuestions up topic n) \<le> nat \<lfloor>n\<rfloor>"
    by (auto simp: generateQuizQuestions_def slice0_nonneg [OF n0]
        split: upstream.splits option.splits json.splits)
  have shape: "\<forall>g \<in> set (generateQuizQuestions up topic n). question_shape g"
    using fallback_shape
    by (auto simp: generateQuizQuestions_def slice0_nonneg [OF n0]
        split: upstream.splits option.splits json.splits
        dest!: in_set_takeD dest: validate_all_shape)
  have fb: "generateQuizQuestions UpstreamFailure topic n = take (nat \<lfloor>n\<rfloor>) FALLBACK_QUESTIONS"
    by (simp add: generateQuizQuestions_def slice0_nonneg [OF n0])
  have fbl: "length (generateQuizQuestions UpstreamFailure topic n) = min (nat \<lfloor>n\<rfloor>) 10"
    by (simp add: fb fallback_length min.commute)
  have ok: "\<forall>result qs gs. up = Parsed result \<and> js_prop result ''questions'' = Some (JArr qs)
             \<and> validate_all qs = Some gs
           \<longrightarrow> generateQuizQuestions up topic n = take (nat \<lfloor>n\<rfloor>) gs
               \<and> length (generateQuizQuestions up topic n) = min (nat \<lfloor>n\<rfloor>) (length qs)"
    by (auto simp: generateQuizQuestions_def slice0_nonneg [OF n0] min.commute
        dest: validate_all_shape)
  have bad: "\<forall>result. up = Parsed result
           \<and> (\<forall>qs. js_prop result ''questions'' = Some (JArr qs) \<longrightarrow> validate_all qs = None)
           \<longrightarrow> generateQuizQuestions up topic n = take (nat \<lfloor>n\<rfloor>) FALLBACK_QUESTIONS"
    by (auto simp: generateQuizQuestions_def slice0_nonneg [OF n0]
        split: option.splits json.splits)
  show ?thesis using len shape fb fbl ok bad by blast
qed

theorem generateQuizQuestions_at_most_count_witness:
  "(5::number) \<le> 5 \<and> (5::number) \<le> 20
   \<and> length (generateQuizQuestions UpstreamFailure ''X'' 5) = 5
   \<and> list_all question_shape (generateQuizQuestions UpstreamFailure ''X'' 5)
   \<and> generateQuizQuestions UpstreamFailure ''X'' 5 = take 5 FALLBACK_QUESTIONS"
  using generateQuizQuestions_at_most_count [of 5 UpstreamFailure "''X''"]
  by (simp add: fallback_length list_all_iff)

section \<open>Allocating a room code\<close>

text \<open>
  Claim C7 at a concrete run. The first create request draws the code \<^verbatim>\<open>AAAAAA\<close> and
  stores its room. The second request draws \<^verbatim>\<open>AAAAAA\<close> nine times and \<^verbatim>\<open>BBBBBB\<close> at the
  tenth attempt. No room has the code \<^verbatim>\<open>BBBBBB\<close>, yet the loop leaves with ten attempts
  counted and the handler replies 500 and stores nothing: the test after the loop looks at
  the number of attempts only, so a free code found at the last attempt is thrown away.
\<close>

theorem create_tenth_code_discarded:
  "getQuizRoomByCode (snd (create_handler space_body (\<lambda>k. 0) empty_reply init)) ''BBBBBB'' = None
   \<and> roomCodeLoop (snd (create_handler space_body (\<lambda>k. 0) empty_reply init)) rnd_collide 0
       = (''BBBBBB'', 10)
   \<and> create_handler space_body rnd_collide empty_reply
        (snd (create_handler space_body (\<lambda>k. 0) empty_reply init))
       = (Reply 500 (B_Message (Msg ''Failed to generate unique room code'')),
          snd (create_handler space_body (\<lambda>k. 0) empty_reply init))"
  by code_simp

section \<open>The invariant holds in every reachable store\<close>

lemmas ok_defs = store_ok_def rooms_ok_def questions_ok_def players_ok_def answers_ok_def

lemma update_fresh: "k \<notin> fst ` set al \<Longrightarrow> AList.update k v al = al @ [(k, v)]"
  by (induction al) auto

lemma store_ok_init: "store_ok init"
  by (simp add: ok_defs init_def)

lemma createQuizRoom_ok:
  assumes "store_ok s" and "map_of (quizRooms s) (ir_roomCode ir) = None"
  shows "store_ok (snd (createQuizRoom ir s))"
  using assms
  by (auto simp: ok_defs createQuizRoom_def Let_def or_num_def set_update_distinct
        distinct_update split: prod.splits) (fastforce+)?

lemma addQuestion_ok: "store_ok s \<Longrightarrow> store_ok (addQuestion q s)"
  by (auto simp: ok_defs addQuestion_def set_update_distinct distinct_update) (fastforce+)?

lemma fold_addQuestion_ok: "store_ok s \<Longrightarrow> store_ok (fold addQuestion qs s)"
  by (induction qs arbitrary: s) (auto simp: addQuestion_ok)

lemma createPlayer_ok:
  assumes "store_ok s" and "\<exists>r \<in> snd ` set (quizRooms s). r_id r = ip_roomId ip"
    and "0 \<le> ip_score ip"
  shows "store_ok (snd (createPlayer ip s))"
  using assms
  by (auto simp: ok_defs createPlayer_def Let_def or_num_def set_update_distinct
        distinct_update) (fastforce+)?

lemma hasPlayerAnswered_iff:
  "hasPlayerAnswered s pid qid \<longleftrightarrow> (pid, qid) \<in> answer_key ` set (answers s)"
  by (auto simp: hasPlayerAnswered_def list_ex_iff answer_key_def image_iff)

lemma createAnswer_ok:
  assumes "store_ok s" and "\<not> hasPlayerAnswered s (ia_playerId ia) (ia_questionId ia)"
  shows "store_ok (snd (createAnswer ia s))"
proof -
  have fresh: "currentAnswerId s \<notin> fst ` set (answers s)"
    using assms(1) by (auto simp: ok_defs)
  have "answers_ok (snd (createAnswer ia s))"
    using assms fresh
    by (auto simp: ok_defs createAnswer_def Let_def update_fresh hasPlayerAnswered_iff
        answer_key_def image_iff) (fastforce+)?
  then show ?thesis
    using assms(1) by (auto simp: ok_defs createAnswer_def Let_def)
qed

lemma updatePlayerScore_ok:
  assumes "store_ok s" and "0 \<le> sc"
  shows "store_ok (snd (updatePlayerScore pid sc s))"
proof (cases "map_of (players s) pid")
  case None
  then show ?thesis using assms by (simp add: updatePlayerScore_def)
next
  case (Some p)
  then have "(pid, p) \<in> set (players s)" by (rule map_of_SomeD)
  then show ?thesis
    using assms Some
    by (auto simp: ok_defs updatePlayerScore_def Let_def set_update_distinct distinct_update)
       (fastforce+)?
qed

lemma merge_updates_keep:
  "u_id u = None \<Longrightarrow> r_id (merge_updates r u) = r_id r"
  "u_timePerQuestion u = None \<Longrightarrow> r_timePerQuestion (merge_updates r u) = r_timePerQuestion r"
  "u_hostId u = None \<Longrightarrow> r_hostId (merge_updates r u) = r_hostId r"
  "r_status (merge_updates r u) = (case u_status u of None \<Rightarrow> r_status r | Some v \<Rightarrow> v)"
  by (simp_all add: merge_updates_def)

lemma updateQuizRoom_ok:
  assumes "store_ok s" and "u_id u = None" and "u_timePerQuestion u = None"
  shows "store_ok (snd (updateQuizRoom code u s))"
proof (cases "map_of (quizRooms s) code")
  case None
  then show ?thesis using assms by (simp add: updateQuizRoom_def)
next
  case (Some r)
  then have mem: "(code, r) \<in> set (quizRooms s)" by (rule map_of_SomeD)
  have rooms: "rooms_ok (snd (updateQuizRoom code u s))"
    using assms Some mem
    by (auto simp: ok_defs updateQuizRoom_def Let_def set_update_distinct distinct_update
        merge_updates_keep)
  have ex: "\<exists>r' \<in> snd ` set (AList.update code (merge_updates r u) (quizRooms s)). r_id r' = i"
    if "\<exists>r' \<in> snd ` set (quizRooms s). r_id r' = i" for i
  proof -
    from that obtain k r' where kr: "(k, r') \<in> set (quizRooms s)" "r_id r' = i" by auto
    have d: "distinct (map fst (quizRooms s))" using assms(1) by (simp add: ok_defs)
    show ?thesis
    proof (cases "k = code")
      case True
      with kr mem d have "r' = r" by (metis eq_key_imp_eq_value)
      then show ?thesis
        using kr assms(2) by (auto simp: set_update_distinct [OF d] merge_updates_keep)
    next
      case False
      then show ?thesis
        using kr by (force simp: set_update_distinct [OF d])
    qed
  qed
  have players: "players_ok (snd (updateQuizRoom code u s))"
    using assms(1) Some ex
    by (simp add: ok_defs updateQuizRoom_def Let_def split_beta)
  show ?thesis
    using assms(1) Some rooms players
    by (simp add: store_ok_def questions_ok_def answers_ok_def updateQuizRoom_def Let_def)
qed

lemma distinct_answer_key_delete_keys:
  "distinct (map answer_key al) \<Longrightarrow> distinct (map answer_key (delete_keys ks al))"
  by (simp add: delete_keys_filter distinct_map_filter)

lemma answers_delete_keys_ok:
  assumes "answers_ok s"
  shows "answers_ok (s\<lparr>answers := delete_keys ks (answers s)\<rparr>)"
  using assms
  by (auto simp: answers_ok_def distinct_delete_keys set_delete_keys
      distinct_answer_key_delete_keys)

lemma clearAnswersForPlayer_ok:
  "store_ok s \<Longrightarrow> store_ok (snd (clearAnswersForPlayer pid s))"
  using answers_delete_keys_ok [of s]
  by (simp add: store_ok_def clearAnswersForPlayer_def Let_def rooms_ok_def questions_ok_def
      players_ok_def)

lemma cleanupPlayer_ok: "store_ok s \<Longrightarrow> store_ok (snd (cleanupPlayer pid s))"
proof (cases "map_of (players s) pid")
  case None
  assume "store_ok s"
  with None show ?thesis by (simp add: cleanupPlayer_def)
next
  case (Some p)
  assume ok: "store_ok s"
  let ?ks = "map a_id (filter (\<lambda>a. a_playerId a = pid) (map snd (answers s)))"
  have a: "answers_ok (s\<lparr>answers := delete_keys ?ks (answers s)\<rparr>)"
    using ok by (intro answers_delete_keys_ok) (simp add: store_ok_def)
  have p: "players_ok (snd (cleanupPlayer pid s))"
    using ok Some
    by (auto simp: store_ok_def players_ok_def cleanupPlayer_def Let_def distinct_delete
        set_delete)
  show ?thesis
    using ok Some a p
    by (simp add: store_ok_def rooms_ok_def questions_ok_def answers_ok_def cleanupPlayer_def
        Let_def)
qed

lemma delete_keys_by_value:
  assumes "distinct (map fst al)" and "\<forall>(k, v) \<in> set al. f v = k"
  shows "delete_keys (map f (filter P (map snd al))) al = filter (\<lambda>x. \<not> P (snd x)) al"
proof -
  have "fst x \<notin> set (map f (filter P (map snd al))) \<longleftrightarrow> \<not> P (snd x)" if "x \<in> set al" for x
  proof
    assume l: "fst x \<notin> set (map f (filter P (map snd al)))"
    show "\<not> P (snd x)"
    proof
      assume "P (snd x)"
      moreover have "f (snd x) = fst x" using assms(2) that by auto
      ultimately have "fst x \<in> set (map f (filter P (map snd al)))"
        using that by (auto simp: image_iff intro!: bexI [of _ x])
      with l show False by simp
    qed
  next
    assume r: "\<not> P (snd x)"
    show "fst x \<notin> set (map f (filter P (map snd al)))"
    proof
      assume "fst x \<in> set (map f (filter P (map snd al)))"
      then obtain y where y: "y \<in> set al" "P (snd y)" "f (snd y) = fst x" by auto
      then have "fst y = fst x" using assms(2) by auto
      then have "y = x"
        using assms(1) y(1) that by (metis eq_key_imp_eq_value prod.collapse)
      with y r show False by simp
    qed
  qed
  then show ?thesis
    by (simp add: delete_keys_filter cong: filter_cong)
qed

lemma delete_question_answers_filter:
  assumes "distinct (map fst al)" and "\<forall>(k, a) \<in> set al. a_id a = k"
  shows "delete_question_answers qs al
     = filter (\<lambda>x. a_questionId (snd x) \<notin> q_id ` set qs) al"
  using assms
proof (induction qs arbitrary: al)
  case Nil
  then show ?case by simp
next
  case (Cons q qs)
  let ?al = "filter (\<lambda>x. \<not> a_questionId (snd x) = q_id q) al"
  have step: "delete_keys (map a_id (filter (\<lambda>a. a_questionId a = q_id q) (map snd al))) al = ?al"
    using Cons.prems by (rule delete_keys_by_value)
  have "delete_question_answers qs ?al
     = filter (\<lambda>x. a_questionId (snd x) \<notin> q_id ` set qs) ?al"
    using Cons.prems by (intro Cons.IH) (auto simp: distinct_map_filter)
  then show ?case
    by (simp add: step Let_def)
qed

lemma cleanupRoom_closed:
  assumes "store_ok s" and "map_of (quizRooms s) code = Some room"
  shows "cleanupRoom code s =
     (True, s\<lparr>players := filter (\<lambda>x. p_roomId (snd x) \<noteq> r_id room) (players s),
               questions := filter (\<lambda>x. q_roomId (snd x) \<noteq> r_id room) (questions s),
               answers := filter (\<lambda>x. a_questionId (snd x) \<notin>
                    q_id ` {q \<in> snd ` set (questions s). q_roomId q = r_id room}) (answers s),
               quizRooms := AList.delete code (quizRooms s)\<rparr>)"
proof -
  have p: "delete_keys (map p_playerId (filter (\<lambda>p. p_roomId p = r_id room) (map snd (players s))))
             (players s) = filter (\<lambda>x. \<not> p_roomId (snd x) = r_id room) (players s)"
    using assms(1) by (intro delete_keys_by_value) (auto simp: ok_defs)
  have q: "delete_keys (map q_id (filter (\<lambda>q. q_roomId q = r_id room) (map snd (questions s))))
             (questions s) = filter (\<lambda>x. \<not> q_roomId (snd x) = r_id room) (questions s)"
    using assms(1) by (intro delete_keys_by_value) (auto simp: ok_defs)
  have a: "delete_question_answers (filter (\<lambda>q. q_roomId q = r_id room) (map snd (questions s)))
             (answers s)
           = filter (\<lambda>x. a_questionId (snd x) \<notin>
                q_id ` set (filter (\<lambda>q. q_roomId q = r_id room) (map snd (questions s))))
               (answers s)"
    using assms(1) by (intro delete_question_answers_filter) (auto simp: ok_defs)
  have e: "set (filter (\<lambda>q. q_roomId q = r_id room) (map snd (questions s)))
           = {q \<in> snd ` set (questions s). q_roomId q = r_id room}"
    by auto
  show ?thesis
    using assms(2) by (simp add: cleanupRoom_def Let_def p q a e)
qed

lemma cleanupRoom_ok: "store_ok s \<Longrightarrow> store_ok (snd (cleanupRoom code s))"
proof (cases "map_of (quizRooms s) code")
  case None
  assume "store_ok s"
  with None show ?thesis by (simp add: cleanupRoom_def)
next
  case (Some room)
  assume ok: "store_ok s"
  have mem: "(code, room) \<in> set (quizRooms s)" using Some by (rule map_of_SomeD)
  have d: "distinct (map fst (quizRooms s))" using ok by (simp add: ok_defs)
  have ex: "\<exists>r \<in> snd ` set (AList.delete code (quizRooms s)). r_id r = i"
    if "\<exists>r \<in> snd ` set (quizRooms s). r_id r = i" and "i \<noteq> r_id room" for i
  proof -
    from that obtain k r where kr: "(k, r) \<in> set (quizRooms s)" "r_id r = i" by auto
    have "k \<noteq> code"
    proof
      assume "k = code"
      with kr mem d have "r = room" by (metis eq_key_imp_eq_value)
      with kr that(2) show False by simp
    qed
    with kr show ?thesis by (force simp: set_delete)
  qed
  have r: "rooms_ok (snd (cleanupRoom code s))"
    using ok by (auto simp: cleanupRoom_closed [OF ok Some] ok_defs distinct_delete set_delete)
  have q: "questions_ok (snd (cleanupRoom code s))"
    using ok by (auto simp: cleanupRoom_closed [OF ok Some] ok_defs distinct_map_filter)
  have a: "answers_ok (snd (cleanupRoom code s))"
    using ok by (auto simp: cleanupRoom_closed [OF ok Some] ok_defs distinct_map_filter)
  have p: "players_ok (snd (cleanupRoom code s))"
    unfolding players_ok_def
  proof (intro conjI ballI)
    show "distinct (map fst (players (snd (cleanupRoom code s))))"
      using ok by (simp add: cleanupRoom_closed [OF ok Some] ok_defs distinct_map_filter)
  next
    fix x assume x: "x \<in> set (players (snd (cleanupRoom code s)))"
    then have xs: "x \<in> set (players s)" and ne: "p_roomId (snd x) \<noteq> r_id room"
      by (simp_all add: cleanupRoom_closed [OF ok Some])
    from ok xs have old: "p_playerId (snd x) = fst x \<and> p_id (snd x) < currentPlayerId s
        \<and> 0 \<le> p_score (snd x) \<and> (\<exists>r \<in> snd ` set (quizRooms s). r_id r = p_roomId (snd x))"
      by (cases x) (auto simp: store_ok_def players_ok_def)
    with ex [OF _ ne] show "case x of (k, p) \<Rightarrow>
        p_playerId p = k \<and> p_id p < currentPlayerId (snd (cleanupRoom code s)) \<and> 0 \<le> p_score p
        \<and> (\<exists>r \<in> snd ` set (quizRooms (snd (cleanupRoom code s))). r_id r = p_roomId p)"
      by (simp add: cleanupRoom_closed [OF ok Some] split_beta)
  qed
  show ?thesis using r q a p by (simp add: store_ok_def)
qed

lemma createQuestions_snd: "snd (createQuestions qs s) = fold addQuestion qs s"
  by (induction qs arbitrary: s) (simp_all add: Let_def addQuestion_def split_beta)

lemma fold_addQuestion_fields:
  "quizRooms (fold addQuestion qs s) = quizRooms s"
  "players (fold addQuestion qs s) = players s"
  "answers (fold addQuestion qs s) = answers s"
  "currentRoomId (fold addQuestion qs s) = currentRoomId s"
  "currentPlayerId (fold addQuestion qs s) = currentPlayerId s"
  "currentAnswerId (fold addQuestion qs s) = currentAnswerId s"
  by (induction qs arbitrary: s; simp add: addQuestion_def)+

lemma create_handler_cases:
  "(\<exists>m. create_handler b rnd up s = (Reply 500 (B_Message m), s))
   \<or> (\<exists>d code n room. createQuizSchema b = Some d \<and> roomCodeLoop s rnd 0 = (code, n) \<and> n < 10
         \<and> getQuizRoomByCode s code = None
         \<and> create_handler b rnd up s = (Reply 200 (B_Create code room), created_store d code up s))"
proof (cases "createQuizSchema b")
  case None
  then show ?thesis by (simp add: create_handler_def)
next
  case (Some d)
  obtain code n where loop: "roomCodeLoop s rnd 0 = (code, n)" by (cases "roomCodeLoop s rnd 0")
  show ?thesis
  proof (cases "n < 10")
    case True
    then have "getQuizRoomByCode s code = None" using loop roomCodeLoop_free by blast
    moreover have "\<exists>room. create_handler b rnd up s
        = (Reply 200 (B_Create code room), created_store d code up s)"
      using Some loop True
      by (simp add: create_handler_def created_store_def split_beta createQuestions_snd
          createQuizRoom_def Let_def)
    ultimately show ?thesis using Some loop True by blast
  next
    case False
    then show ?thesis using Some loop by (simp add: create_handler_def)
  qed
qed

lemma created_store_ok:
  assumes "store_ok s" and "getQuizRoomByCode s code = None"
  shows "store_ok (created_store d code up s)"
  unfolding created_store_def
proof (rule createPlayer_ok)
  let ?ir = "\<lparr>ir_roomCode = code, ir_hostId = c_hostId d, ir_topic = c_topic d,
                   ir_questionCount = c_questionCount d,
                   ir_timePerQuestion = c_timePerQuestion d,
                   ir_status = ''waiting'', ir_currentQuestionIndex = 0\<rparr>"
  let ?s1 = "snd (createQuizRoom ?ir s)"
  let ?qs = "questionsToInsert (currentRoomId s) (generateQuizQuestions up (c_topic d) (c_questionCount d))"
  have "store_ok ?s1"
    using assms by (intro createQuizRoom_ok) (simp_all add: getQuizRoomByCode_def)
  then show "store_ok (fold addQuestion ?qs ?s1)" by (rule fold_addQuestion_ok)
  have "distinct (map fst (quizRooms s))" using assms(1) by (simp add: ok_defs)
  then show "\<exists>r\<in>snd ` set (quizRooms (fold addQuestion ?qs ?s1)).
       r_id r = ip_roomId \<lparr>ip_roomId = currentRoomId s, ip_name = ''Host'',
            ip_playerId = c_hostId d, ip_score = 0, ip_isHost = True\<rparr>"
    by (simp add: fold_addQuestion_fields createQuizRoom_def Let_def set_update_distinct)
  show "0 \<le> ip_score \<lparr>ip_roomId = currentRoomId s, ip_name = ''Host'',
            ip_playerId = c_hostId d, ip_score = 0, ip_isHost = True\<rparr>" by simp
qed

lemma create_handler_ok:
  assumes "store_ok s"
  shows "store_ok (snd (create_handler b rnd up s))"
  using create_handler_cases [of b rnd up s] assms
  by (auto simp: created_store_ok)

lemma cleanupPlayer_fields:
  "quizRooms (snd (cleanupPlayer pid s)) = quizRooms s"
  "questions (snd (cleanupPlayer pid s)) = questions s"
  "currentRoomId (snd (cleanupPlayer pid s)) = currentRoomId s"
  "currentPlayerId (snd (cleanupPlayer pid s)) = currentPlayerId s"
  by (simp_all add: cleanupPlayer_def Let_def split: option.splits)

lemma room_of_code_in_store:
  "getQuizRoomByCode s code = Some room \<Longrightarrow> \<exists>r \<in> snd ` set (quizRooms s). r_id r = r_id room"
  by (auto simp: getQuizRoomByCode_def dest!: map_of_SomeD intro!: bexI [of _ "(code, room)"])

lemma join_handler_ok:
  assumes "store_ok s"
  shows "store_ok (snd (join_handler b s))"
proof -
  have a: "store_ok (snd (createPlayer
          \<lparr>ip_roomId = r_id room, ip_name = n, ip_playerId = pid, ip_score = 0, ip_isHost = False\<rparr>
          (snd (cleanupPlayer pid s))))"
    if "getQuizRoomByCode s code = Some room" for room n pid code
    using assms room_of_code_in_store [OF that]
    by (intro createPlayer_ok) (auto simp: cleanupPlayer_ok cleanupPlayer_fields)
  have b: "store_ok (snd (createPlayer
          \<lparr>ip_roomId = r_id room, ip_name = n, ip_playerId = pid, ip_score = 0, ip_isHost = False\<rparr> s))"
    if "getQuizRoomByCode s code = Some room" for room n pid code
    using assms room_of_code_in_store [OF that]
    by (intro createPlayer_ok) auto
  show ?thesis
    using assms a b
    by (auto simp: join_handler_def Let_def split_beta split: option.splits)
qed

lemma clear_answers_handler_ok:
  "store_ok s \<Longrightarrow> store_ok (snd (clear_answers_handler b s))"
  by (simp add: clear_answers_handler_def clearAnswersForPlayer_ok split: option.splits)

lemma answer_points_nonneg: "0 \<le> answer_points s pid c t"
  by (simp add: answer_points_def Let_def)

lemma createAnswer_fields:
  "quizRooms (snd (createAnswer ia s)) = quizRooms s"
  "questions (snd (createAnswer ia s)) = questions s"
  "players (snd (createAnswer ia s)) = players s"
  "currentRoomId (snd (createAnswer ia s)) = currentRoomId s"
  "currentPlayerId (snd (createAnswer ia s)) = currentPlayerId s"
  by (simp_all add: createAnswer_def Let_def)

lemma question_key:
  "store_ok s \<Longrightarrow> getQuestionById s qid = Some q \<Longrightarrow> q_id q = qid"
  by (auto simp: ok_defs getQuestionById_def dest!: map_of_SomeD)

lemma player_key:
  "store_ok s \<Longrightarrow> getPlayerById s pid = Some p \<Longrightarrow>
     p_playerId p = pid \<and> 0 \<le> p_score p \<and> p_id p < currentPlayerId s
     \<and> (\<exists>r \<in> snd ` set (quizRooms s). r_id r = p_roomId p)"
  by (auto simp: ok_defs getPlayerById_def dest!: map_of_SomeD)

lemma answer_handler_cases:
  "(\<exists>c m. answer_handler b s = (Reply c (B_Message m), s) \<and> c \<noteq> 200)
   \<or> (\<exists>player question t m.
         submitAnswerSchema b = Some b
         \<and> getPlayerById s (sa_playerId b) = Some player
         \<and> \<not> hasPlayerAnswered s (sa_playerId b) (sa_questionId b)
         \<and> getQuestionById s (sa_questionId b) = Some question
         \<and> q_roomId question = p_roomId player
         \<and> answer_handler b s
             = (Reply 200 (B_Answer (sa_selectedAnswer b = q_correctAnswer question)
                             (answer_points s (sa_playerId b)
                                (sa_selectedAnswer b = q_correctAnswer question) (sa_timeToAnswer b))
                             t (q_correctAnswer question) m),
                answered_store b player question s))"
proof (cases "submitAnswerSchema b")
  case None
  then show ?thesis by (simp add: answer_handler_def)
next
  case (Some d)
  then have d: "d = b" by (simp add: submitAnswerSchema_def split: if_splits)
  show ?thesis
    using Some unfolding d
    by (cases "getPlayerById s (sa_playerId b)"; cases "getQuestionById s (sa_questionId b)")
       (auto simp: answer_handler_def answered_store_def Let_def split_beta)
qed

lemma answered_store_ok:
  assumes "store_ok s" and "getPlayerById s (sa_playerId d) = Some player"
    and "\<not> hasPlayerAnswered s (sa_playerId d) (sa_questionId d)"
    and "getQuestionById s (sa_questionId d) = Some question"
  shows "store_ok (answered_store d player question s)"
  unfolding answered_store_def
proof (rule updatePlayerScore_ok)
  have "q_id question = sa_questionId d" using assms(1,4) by (rule question_key)
  then show "store_ok (snd (createAnswer
       \<lparr>ia_playerId = sa_playerId d, ia_questionId = q_id question,
        ia_selectedAnswer = sa_selectedAnswer d,
        ia_isCorrect = (sa_selectedAnswer d = q_correctAnswer question),
        ia_timeToAnswer = sa_timeToAnswer d\<rparr> s))"
    using assms(1,3) by (intro createAnswer_ok) simp_all
  show "0 \<le> p_score player + answer_points s (sa_playerId d)
          (sa_selectedAnswer d = q_correctAnswer question) (sa_timeToAnswer d)"
    using player_key [OF assms(1,2)] answer_points_nonneg [of s] by (simp add: add_nonneg_nonneg)
qed

lemma answer_handler_ok:
  assumes "store_ok s"
  shows "store_ok (snd (answer_handler b s))"
  using answer_handler_cases [of b s] assms
  by (auto simp: answered_store_ok)

lemma cleanup_handler_ok: "store_ok s \<Longrightarrow> store_ok (snd (cleanup_handler code b s))"
  using cleanupRoom_ok [of s code]
  by (simp add: cleanup_handler_def split_beta split: option.splits)

lemma leave_handler_ok: "store_ok s \<Longrightarrow> store_ok (snd (leave_handler b s))"
  using cleanupPlayer_ok [of s "l_playerId b"]
  by (auto simp: leave_handler_def leaveRoomSchema_def split_beta split: option.splits if_splits)

lemma socket_handler_ok: "store_ok s \<Longrightarrow> store_ok (snd (socket_handler m s))"
  by (cases "m_type m")
     (auto simp: socket_handler_def Let_def no_updates_def cleanupPlayer_ok cleanupRoom_ok
        updateQuizRoom_ok split: option.splits)

lemma step_ok: "store_ok s \<Longrightarrow> store_ok (snd (step r s))"
  by (cases r)
     (simp_all add: split_beta create_handler_ok join_handler_ok clear_answers_handler_ok
        answer_handler_ok cleanup_handler_ok leave_handler_ok socket_handler_ok)

lemma run_ok: "store_ok s \<Longrightarrow> store_ok (run rs s)"
  by (induction rs arbitrary: s) (simp_all add: step_ok)

lemma reachable_ok: "reachable s \<Longrightarrow> store_ok s"
  by (induction rule: reachable.induct) (simp_all add: store_ok_init step_ok)

lemma reachable_run: "reachable s \<Longrightarrow> reachable (run rs s)"
  by (induction rs arbitrary: s) (simp_all add: reachable_step)

section \<open>Scoring an answer\<close>

lemma answer_handler_status:
  "status_of (fst (answer_handler b s)) = 200 \<longleftrightarrow> accepted b s"
  by (auto simp: answer_handler_def accepted_def status_of_def submitAnswerSchema_def
      Let_def split_beta split: option.splits if_splits)

lemma player_room:
  assumes "store_ok s" and "getPlayerById s pid = Some player"
  shows "\<exists>room. getQuizRoomByPlayerId s pid = Some room \<and> r_id room = p_roomId player
           \<and> r_timePerQuestion room \<noteq> 0 \<and> room \<in> snd ` set (quizRooms s)"
proof -
  from player_key [OF assms] obtain r where r: "r \<in> snd ` set (quizRooms s)" "r_id r = p_roomId player"
    by blast
  then have "find (\<lambda>room. r_id room = p_roomId player) (map snd (quizRooms s)) \<noteq> None"
    by (auto simp: find_None_iff)
  then obtain room where f: "find (\<lambda>room. r_id room = p_roomId player) (map snd (quizRooms s)) = Some room"
    by blast
  then have "room \<in> snd ` set (quizRooms s)" "r_id room = p_roomId player"
    by (auto simp: find_Some_iff image_iff)
  moreover from this assms(1) have "r_timePerQuestion room \<noteq> 0"
    by (auto simp: ok_defs)
  ultimately show ?thesis
    using f assms(2) by (simp add: getQuizRoomByPlayerId_def getPlayerById_def)
qed

lemma answered_store_player:
  assumes "getPlayerById s (sa_playerId d) = Some player"
  shows "getPlayerById (answered_store d player question s) (sa_playerId d)
     = Some (player\<lparr>p_score := p_score player
          + answer_points s (sa_playerId d) (sa_selectedAnswer d = q_correctAnswer question)
              (sa_timeToAnswer d)\<rparr>)"
  using assms
  by (simp add: answered_store_def getPlayerById_def updatePlayerScore_def createAnswer_fields
      Let_def update_conv')

text \<open>
  Claim C3. In every reachable store a submission is accepted (status 200) exactly when
  the body is valid, the player exists, has no answer for the question yet, the question
  exists and belongs to the player's room; the elapsed time plays no part in it. For an
  accepted submission the reply says whether the selected option equals the question's
  correct one; a correct answer earns 100 plus ten times the seconds left of the room's
  time per question (none left: 100), an incorrect one earns 0, and the stored score of
  the player grows by exactly the points awarded.
\<close>

theorem answer_scoring:
  assumes "reachable s"
  shows "(status_of (fst (answer_handler b s)) = 200 \<longleftrightarrow> accepted b s)
    \<and> (accepted b s \<longrightarrow>
         (\<exists>player question room.
            getPlayerById s (sa_playerId b) = Some player
          \<and> getQuestionById s (sa_questionId b) = Some question
          \<and> getQuizRoomByPlayerId s (sa_playerId b) = Some room
          \<and> r_id room = p_roomId player
          \<and> (let isCorrect = (sa_selectedAnswer b = q_correctAnswer question);
                  points = (if isCorrect
                            then 100 + max 0 (r_timePerQuestion room - sa_timeToAnswer b) * 10
                            else 0)
              in fst (answer_handler b s)
                   = Reply 200 (B_Answer isCorrect points (p_score player + points)
                        (q_correctAnswer question)
                        (Msg (if isCorrect then ''Correct answer!'' else ''Incorrect answer'')))
                 \<and> getPlayerById (snd (answer_handler b s)) (sa_playerId b)
                     = Some (player\<lparr>p_score := p_score player + points\<rparr>)
                 \<and> (r_timePerQuestion room \<le> sa_timeToAnswer b
                      \<longrightarrow> points = (if isCorrect then 100 else 0)))))"
proof (intro conjI impI)
  show "status_of (fst (answer_handler b s)) = 200 \<longleftrightarrow> accepted b s"
    by (rule answer_handler_status)
next
  assume acc: "accepted b s"
  have ok: "store_ok s" using assms by (rule reachable_ok)
  from acc obtain player question where
    v: "submitAnswerSchema b = Some b" and
    p: "getPlayerById s (sa_playerId b) = Some player" and
    h: "\<not> hasPlayerAnswered s (sa_playerId b) (sa_questionId b)" and
    q: "getQuestionById s (sa_questionId b) = Some question" and
    m: "q_roomId question = p_roomId player"
    by (auto simp: accepted_def split: option.splits)
  from player_room [OF ok p] obtain room where
    r: "getQuizRoomByPlayerId s (sa_playerId b) = Some room" "r_id room = p_roomId player"
       "r_timePerQuestion room \<noteq> 0"
    by blast
  let ?c = "sa_selectedAnswer b = q_correctAnswer question"
  have pts: "answer_points s (sa_playerId b) ?c (sa_timeToAnswer b)
      = (if ?c then 100 + max 0 (r_timePerQuestion room - sa_timeToAnswer b) * 10 else 0)"
    using r by (simp add: answer_points_def or_num_def Let_def)
  have res: "answer_handler b s
      = (Reply 200 (B_Answer ?c (answer_points s (sa_playerId b) ?c (sa_timeToAnswer b))
              (p_score player + answer_points s (sa_playerId b) ?c (sa_timeToAnswer b))
              (q_correctAnswer question)
              (Msg (if ?c then ''Correct answer!'' else ''Incorrect answer''))),
         answered_store b player question s)"
    using v p h q m
    by (simp add: answer_handler_def answered_store_def Let_def split_beta
        updatePlayerScore_def createAnswer_fields or_num_def getPlayerById_def)
  show "\<exists>player question room.
            getPlayerById s (sa_playerId b) = Some player
          \<and> getQuestionById s (sa_questionId b) = Some question
          \<and> getQuizRoomByPlayerId s (sa_playerId b) = Some room
          \<and> r_id room = p_roomId player
          \<and> (let isCorrect = (sa_selectedAnswer b = q_correctAnswer question);
                  points = (if isCorrect
                            then 100 + max 0 (r_timePerQuestion room - sa_timeToAnswer b) * 10
                            else 0)
              in fst (answer_handler b s)
                   = Reply 200 (B_Answer isCorrect points (p_score player + points)
                        (q_correctAnswer question)
                        (Msg (if isCorrect then ''Correct answer!'' else ''Incorrect answer'')))
                 \<and> getPlayerById (snd (answer_handler b s)) (sa_playerId b)
                     = Some (player\<lparr>p_score := p_score player + points\<rparr>)
                 \<and> (r_timePerQuestion room \<le> sa_timeToAnswer b
                      \<longrightarrow> points = (if isCorrect then 100 else 0)))"
    apply (rule exI [of _ player], rule exI [of _ question], rule exI [of _ room])
    using p q r(1,2) answered_store_player [OF p, of question]
    by (simp add: res pts Let_def)
qed

lemma reachable_examples:
  "reachable s_created" "reachable s_waiting" "reachable s_active" "reachable s_answered"
  "reachable s_finished"
  unfolding s_created_def s_waiting_def s_active_def s_answered_def s_finished_def
  by (rule reachable_run [OF reachable_init])+

theorem answer_scoring_witness:
  "reachable s_active \<and> accepted answer_p1 s_active
   \<and> fst (answer_handler answer_p1 s_active)
       = Reply 200 (B_Answer True 220 220 2 (Msg ''Correct answer!''))
   \<and> map_option p_score (getPlayerById (snd (answer_handler answer_p1 s_active)) ''p1'') = Some 220"
proof -
  have r: "reachable s_active" by (rule reachable_examples)
  have a: "accepted answer_p1 s_active" by code_simp
  have e: "fst (answer_handler answer_p1 s_active)
       = Reply 200 (B_Answer True 220 220 2 (Msg ''Correct answer!''))" by code_simp
  have p: "map_option p_score (getPlayerById (snd (answer_handler answer_p1 s_active)) ''p1'') = Some 220"
    by code_simp
  show ?thesis
    using answer_scoring [OF r, of answer_p1] r a e p by simp
qed

section \<open>One answer per player and question\<close>











section \<open>Cleaning a room up\<close>

lemma map_of_filter_value_None:
  assumes "distinct (map fst al)" and "(k, v) \<in> set al" and "\<not> P (k, v)"
  shows "map_of (filter P al) k = None"
proof -
  have "k \<notin> fst ` set (filter P al)"
  proof
    assume "k \<in> fst ` set (filter P al)"
    then obtain v' where v': "(k, v') \<in> set al" "P (k, v')" by auto
    with assms(1,2) have "v' = v" by (metis eq_key_imp_eq_value)
    with v' assms(3) show False by simp
  qed
  then show ?thesis by (simp add: map_of_eq_None_iff)
qed

lemma filter_values_excluded:
  "filter P (map snd (filter (\<lambda>x. \<not> P (snd x)) al)) = []"
  by (induction al) auto

lemma find_values_excluded:
  "(\<And>v. Q v \<Longrightarrow> P v) \<Longrightarrow> find Q (map snd (filter (\<lambda>x. \<not> P (snd x)) al)) = None"
  by (induction al) auto

text \<open>
  Claim C5. In a reachable store, cleaning up a room \<open>R\<close> that is stored under \<open>code\<close>
  succeeds, and afterwards the room is not found under its code, no player and no question
  of the room is listed or found by its key, and no answer to a question of the room is
  left. The REST handler, when it replies 200, and the socket handler, for a message with
  the host flag, leave exactly the store of \<open>cleanupRoom\<close>.
\<close>

theorem cleanup_cascade:
  assumes "reachable s" and "getQuizRoomByCode s code = Some R"
  shows "fst (cleanupRoom code s)
    \<and> getQuizRoomByCode (snd (cleanupRoom code s)) code = None
    \<and> getPlayersByRoomId (snd (cleanupRoom code s)) (r_id R) = []
    \<and> getQuestionsByRoomId (snd (cleanupRoom code s)) (r_id R) = []
    \<and> (\<forall>p \<in> snd ` set (players s). p_roomId p = r_id R
          \<longrightarrow> getPlayerById (snd (cleanupRoom code s)) (p_playerId p) = None)
    \<and> (\<forall>q \<in> snd ` set (questions s). q_roomId q = r_id R
          \<longrightarrow> getQuestionById (snd (cleanupRoom code s)) (q_id q) = None
            \<and> getQuestionByRoomAndOrder (snd (cleanupRoom code s)) (r_id R) (q_order q) = None
            \<and> getAnswersByQuestionId (snd (cleanupRoom code s)) (q_id q) = [])
    \<and> (status_of (fst (cleanup_handler code b s)) = 200
          \<longrightarrow> snd (cleanup_handler code b s) = snd (cleanupRoom code s))
    \<and> (m_type m = CleanupRoom \<and> m_isHost m \<and> m_roomCode m = code
          \<longrightarrow> snd (socket_handler m s) = snd (cleanupRoom code s))"
proof -
  have ok: "store_ok s" using assms(1) by (rule reachable_ok)
  have room: "map_of (quizRooms s) code = Some R"
    using assms(2) by (simp add: getQuizRoomByCode_def)
  note closed = cleanupRoom_closed [OF ok room]
  have c1: "fst (cleanupRoom code s)" by (simp add: closed)
  have c2: "getQuizRoomByCode (snd (cleanupRoom code s)) code = None"
    by (simp add: closed getQuizRoomByCode_def delete_conv')
  have c3: "getPlayersByRoomId (snd (cleanupRoom code s)) (r_id R) = []"
    using filter_values_excluded [of "\<lambda>p. p_roomId p = r_id R" "players s"]
    by (simp add: closed getPlayersByRoomId_def by_score_desc_def)
  have c4: "getQuestionsByRoomId (snd (cleanupRoom code s)) (r_id R) = []"
    using filter_values_excluded [of "\<lambda>q. q_roomId q = r_id R" "questions s"]
    by (simp add: closed getQuestionsByRoomId_def)
  have c5': "getPlayerById (snd (cleanupRoom code s)) (p_playerId p) = None"
    if "p \<in> snd ` set (players s)" "p_roomId p = r_id R" for p
  proof -
    from that(1) obtain k where k: "(k, p) \<in> set (players s)" by auto
    with ok have "p_playerId p = k" by (auto simp: ok_defs)
    with k that(2) ok show ?thesis
      by (simp add: closed getPlayerById_def)
         (rule map_of_filter_value_None [where v = p], auto simp: ok_defs)
  qed
  have c5: "\<forall>p \<in> snd ` set (players s). p_roomId p = r_id R
          \<longrightarrow> getPlayerById (snd (cleanupRoom code s)) (p_playerId p) = None"
    using c5' by (intro ballI impI)
  have c6': "getQuestionById (snd (cleanupRoom code s)) (q_id q) = None
            \<and> getQuestionByRoomAndOrder (snd (cleanupRoom code s)) (r_id R) (q_order q) = None
            \<and> getAnswersByQuestionId (snd (cleanupRoom code s)) (q_id q) = []"
    if "q \<in> snd ` set (questions s)" "q_roomId q = r_id R" for q
  proof -
    from that(1) obtain k where k: "(k, q) \<in> set (questions s)" by auto
    with ok have "q_id q = k" by (auto simp: ok_defs)
    with k that(2) ok have a: "getQuestionById (snd (cleanupRoom code s)) (q_id q) = None"
      by (simp add: closed getQuestionById_def)
         (rule map_of_filter_value_None [where v = q], auto simp: ok_defs)
    have b: "getQuestionByRoomAndOrder (snd (cleanupRoom code s)) (r_id R) (q_order q) = None"
      using find_values_excluded [of "\<lambda>qa. q_roomId qa = r_id R \<and> q_order qa = q_order q"
          "\<lambda>qa. q_roomId qa = r_id R" "questions s"]
      by (simp add: closed getQuestionByRoomAndOrder_def)
    have "filter (\<lambda>a. a_questionId a = q_id q)
            (map snd (filter (\<lambda>x. a_questionId (snd x) \<notin>
               q_id ` {q \<in> snd ` set (questions s). q_roomId q = r_id R}) (answers s))) = []"
      using that by (auto simp: filter_empty_conv)
    then have c: "getAnswersByQuestionId (snd (cleanupRoom code s)) (q_id q) = []"
      by (simp add: closed getAnswersByQuestionId_def)
    show ?thesis using a b c by simp
  qed
  have c6: "\<forall>q \<in> snd ` set (questions s). q_roomId q = r_id R
          \<longrightarrow> getQuestionById (snd (cleanupRoom code s)) (q_id q) = None
            \<and> getQuestionByRoomAndOrder (snd (cleanupRoom code s)) (r_id R) (q_order q) = None
            \<and> getAnswersByQuestionId (snd (cleanupRoom code s)) (q_id q) = []"
    using c6' by (intro ballI impI)
  have c7: "status_of (fst (cleanup_handler code b s)) = 200
          \<longrightarrow> snd (cleanup_handler code b s) = snd (cleanupRoom code s)"
    by (auto simp: cleanup_handler_def status_of_def split_beta split: option.splits if_splits)
  have c8: "m_type m = CleanupRoom \<and> m_isHost m \<and> m_roomCode m = code
          \<longrightarrow> snd (socket_handler m s) = snd (cleanupRoom code s)"
    by (auto simp: socket_handler_def)
  show ?thesis
    by (intro conjI c1 c2 c3 c4 c5 c6 c7 c8)
qed

theorem cleanup_cascade_witness:
  "reachable s_answered
   \<and> getQuizRoomByCode s_answered ''AAAAAA'' \<noteq> None
   \<and> players (snd (cleanupRoom ''AAAAAA'' s_answered)) = []
   \<and> questions (snd (cleanupRoom ''AAAAAA'' s_answered)) = []
   \<and> answers (snd (cleanupRoom ''AAAAAA'' s_answered)) = []
   \<and> getQuizRoomByCode (snd (cleanupRoom ''AAAAAA'' s_answered)) ''AAAAAA'' = None
   \<and> length (players s_answered) = 2 \<and> length (answers s_answered) = 1"
proof -
  have r: "reachable s_answered" by (rule reachable_examples)
  have n: "getQuizRoomByCode s_answered ''AAAAAA'' \<noteq> None" by code_simp
  then obtain R where R: "getQuizRoomByCode s_answered ''AAAAAA'' = Some R" by blast
  have e: "players (snd (cleanupRoom ''AAAAAA'' s_answered)) = []"
          "questions (snd (cleanupRoom ''AAAAAA'' s_answered)) = []"
          "answers (snd (cleanupRoom ''AAAAAA'' s_answered)) = []"
          "length (players s_answered) = 2" "length (answers s_answered) = 1"
    by code_simp+
  have g: "getQuizRoomByCode (snd (cleanupRoom ''AAAAAA'' s_answered)) ''AAAAAA'' = None"
    by (rule cleanup_cascade [OF r R, THEN conjunct2, THEN conjunct1])
  show ?thesis
    using r n e g by simp
qed

section \<open>Who may clean a room up\<close>

text \<open>
  Claim C6 says that a cleanup by an identity other than the room's host is refused on
  both paths. The socket handler does not look at the identity: it tests the \<^verbatim>\<open>isHost\<close>
  flag of the message. Here the room \<^verbatim>\<open>AAAAAA\<close> has the host \<^verbatim>\<open>h1\<close>; the message comes
  from \<^verbatim>\<open>p1\<close> with the flag set, and the room and its players are gone afterwards.
\<close>

theorem socket_cleanup_ignores_identity:
  "map_option r_hostId (getQuizRoomByCode s_waiting ''AAAAAA'') = Some ''h1''
   \<and> m_playerId (p1_msg CleanupRoom True) = ''p1''
   \<and> getQuizRoomByCode (snd (socket_handler (p1_msg CleanupRoom True) s_waiting)) ''AAAAAA'' = None
   \<and> players (snd (socket_handler (p1_msg CleanupRoom True) s_waiting)) = []
   \<and> length (players s_waiting) = 2"
  by code_simp

text \<open>
  Claim C6, amended. On the REST path a cleanup request for a stored room by an identity
  that is not the room's host identity leaves the store as it is and is not answered with
  200; when the body passes the schema the reply is 403. So the REST handler changes the
  store only for the host identity. On the socket path a cleanup message whose \<^verbatim>\<open>isHost\<close>
  flag is false has no effect at all: the store is unchanged and nothing is sent.
\<close>

theorem cleanup_refused:
  "(getQuizRoomByCode s code = Some room \<and> r_hostId room \<noteq> cl_playerId b
      \<longrightarrow> snd (cleanup_handler code b s) = s
          \<and> status_of (fst (cleanup_handler code b s)) \<noteq> 200
          \<and> (cleanupRoomSchema b = Some b
               \<longrightarrow> cleanup_handler code b s
                     = (Reply 403 (B_Message (Msg ''Only the room host can cleanup'')), s)))
   \<and> (snd (cleanup_handler code b s) \<noteq> s
      \<longrightarrow> map_option r_hostId (getQuizRoomByCode s code) = Some (cl_playerId b))
   \<and> (m_type m = CleanupRoom \<and> \<not> m_isHost m \<longrightarrow> socket_handler m s = ([], s))"
  by (auto simp: cleanup_handler_def cleanupRoomSchema_def status_of_def socket_handler_def
      split_beta split: option.splits if_splits)

theorem cleanup_refused_witness:
  "map_option r_hostId (getQuizRoomByCode s_waiting ''AAAAAA'') = Some ''h1''
   \<and> cleanup_handler ''AAAAAA'' cleanup_p1 s_waiting
       = (Reply 403 (B_Message (Msg ''Only the room host can cleanup'')), s_waiting)
   \<and> socket_handler (p1_msg CleanupRoom False) s_waiting = ([], s_waiting)"
proof -
  obtain room where room: "getQuizRoomByCode s_waiting ''AAAAAA'' = Some room"
    and host: "r_hostId room = ''h1''"
  proof -
    have "map_option r_hostId (getQuizRoomByCode s_waiting ''AAAAAA'') = Some ''h1''"
      by code_simp
    then show ?thesis using that by auto
  qed
  have v: "cleanupRoomSchema cleanup_p1 = Some cleanup_p1" by code_simp
  have i: "cl_playerId cleanup_p1 = ''p1''" by (simp add: cleanup_p1_def)
  have m: "m_type (p1_msg CleanupRoom False) = CleanupRoom" "\<not> m_isHost (p1_msg CleanupRoom False)"
    by (simp_all add: p1_msg_def)
  show ?thesis
    using cleanup_refused [of s_waiting "''AAAAAA''" room cleanup_p1 "p1_msg CleanupRoom False"]
      room host v i m
    by simp
qed

section \<open>Joining a room\<close>

lemma filter_values_other:
  "(\<And>v. Q v \<Longrightarrow> \<not> P v) \<Longrightarrow>
     filter Q (map snd (filter (\<lambda>x. \<not> P (snd x)) al)) = filter Q (map snd al)"
  by (induction al) auto

lemma cleanupPlayer_answers:
  assumes "store_ok s" and "getPlayerById s pid = Some e"
  shows "getAnswersByPlayerId (snd (cleanupPlayer pid s)) pid = []"
    and "pid' \<noteq> pid \<Longrightarrow>
           getAnswersByPlayerId (snd (cleanupPlayer pid s)) pid' = getAnswersByPlayerId s pid'"
    and "pid' \<noteq> pid \<Longrightarrow>
           getPlayerById (snd (cleanupPlayer pid s)) pid' = getPlayerById s pid'"
    and "getPlayerById (snd (cleanupPlayer pid s)) pid = None"
proof -
  have k: "delete_keys (map a_id (filter (\<lambda>a. a_playerId a = pid) (map snd (answers s)))) (answers s)
       = filter (\<lambda>x. \<not> a_playerId (snd x) = pid) (answers s)"
    using assms(1) by (intro delete_keys_by_value) (auto simp: ok_defs)
  show "getAnswersByPlayerId (snd (cleanupPlayer pid s)) pid = []"
    using assms(2) filter_values_excluded [of "\<lambda>a. a_playerId a = pid" "answers s"]
    by (simp add: cleanupPlayer_def getPlayerById_def getAnswersByPlayerId_def Let_def k)
  show "getAnswersByPlayerId (snd (cleanupPlayer pid s)) pid' = getAnswersByPlayerId s pid'"
    if "pid' \<noteq> pid"
  proof -
    have "filter (\<lambda>a. a_playerId a = pid')
            (map snd (filter (\<lambda>x. \<not> a_playerId (snd x) = pid) (answers s)))
          = filter (\<lambda>a. a_playerId a = pid') (map snd (answers s))"
      using that by (intro filter_values_other) simp
    then show ?thesis
      using assms(2)
      by (simp add: cleanupPlayer_def getPlayerById_def getAnswersByPlayerId_def Let_def k)
  qed
  show "getPlayerById (snd (cleanupPlayer pid s)) pid' = getPlayerById s pid'" if "pid' \<noteq> pid"
    using assms(2) that
    by (simp add: cleanupPlayer_def getPlayerById_def Let_def delete_conv')
  show "getPlayerById (snd (cleanupPlayer pid s)) pid = None"
    using assms(2)
    by (simp add: cleanupPlayer_def getPlayerById_def Let_def delete_conv')
qed

lemma createPlayer_players:
  "getPlayerById (snd (createPlayer ip s)) pid
     = (if pid = ip_playerId ip then Some (fst (createPlayer ip s)) else getPlayerById s pid)"
  by (simp add: createPlayer_def getPlayerById_def Let_def update_conv')

lemma createPlayer_answers:
  "getAnswersByPlayerId (snd (createPlayer ip s)) pid = getAnswersByPlayerId s pid"
  by (simp add: createPlayer_def getAnswersByPlayerId_def Let_def)

lemma set_getPlayersByRoomId:
  "set (getPlayersByRoomId s i) = {p \<in> snd ` set (players s). p_roomId p = i}"
  by (auto simp: getPlayersByRoomId_def by_score_desc_def)

lemma getPlayerById_in_store:
  "getPlayerById s pid = Some p \<Longrightarrow> p \<in> snd ` set (players s)"
  by (auto simp: getPlayerById_def dest!: map_of_SomeD intro!: image_eqI [of _ _ "(pid, p)"])

text \<open>
  Claim C8 speaks of every join request. The handler parses the body first, and a body
  that fails the schema never reaches the lookup: here the room code has three characters,
  no room has it, and the reply is the handler's error reply 500, not 404.
\<close>

theorem join_malformed_code:
  "joinQuizSchema join_short_code = None
   \<and> getQuizRoomByCode s_created (j_roomCode join_short_code) = None
   \<and> join_handler join_short_code s_created = (Reply 500 (B_Message ErrorMessage), s_created)"
  by code_simp

text \<open>
  Claim C8, amended. On a reachable store, a join request whose body fails the schema (a
  room code that has not six characters, an empty name or an empty player id) gets the
  error reply 500 and changes nothing. For a request that passes the schema: the reply is
  404 when no room has the code, 400 when the room is not waiting, 400 when the identity
  is already a player of this room, and the store is unchanged in the three cases.
  Otherwise the reply is 200 with the room, the new player (score 0, not host, in this
  room) and the roster of the room read after the insertion, which holds the new player
  and exactly the stored players of the room. If the identity was a player of another
  room, none of its answers is left; every other player and the answers of every other
  identity, the rooms and the questions are as before.
\<close>

theorem join_behaviour:
  assumes "reachable s"
  shows "(joinQuizSchema b = None
            \<longrightarrow> join_handler b s = (Reply 500 (B_Message ErrorMessage), s))
    \<and> (joinQuizSchema b = Some b \<longrightarrow>
        (getQuizRoomByCode s (j_roomCode b) = None
                \<longrightarrow> join_handler b s = (Reply 404 (B_Message (Msg ''Room not found'')), s))
        \<and> (\<forall>room. getQuizRoomByCode s (j_roomCode b) = Some room \<longrightarrow>
              (r_status room \<noteq> ''waiting''
                 \<longrightarrow> join_handler b s = (Reply 400 (B_Message (Msg ''Quiz has already started'')), s))
            \<and> (r_status room = ''waiting'' \<longrightarrow>
                 (\<forall>e. getPlayerById s (j_playerId b) = Some e \<and> p_roomId e = r_id room
                    \<longrightarrow> join_handler b s
                          = (Reply 400 (B_Message (Msg ''Player already joined this room'')), s))
               \<and> ((\<forall>e. getPlayerById s (j_playerId b) = Some e \<longrightarrow> p_roomId e \<noteq> r_id room)
                    \<longrightarrow> fst (join_handler b s)
                          = Reply 200 (B_Join
                              \<lparr>p_id = currentPlayerId s, p_roomId = r_id room, p_name = j_name b,
                               p_playerId = j_playerId b, p_score = 0, p_isHost = False\<rparr>
                              room
                              (getPlayersByRoomId (snd (join_handler b s)) (r_id room)))
                      \<and> getPlayerById (snd (join_handler b s)) (j_playerId b)
                          = Some \<lparr>p_id = currentPlayerId s, p_roomId = r_id room, p_name = j_name b,
                               p_playerId = j_playerId b, p_score = 0, p_isHost = False\<rparr>
                      \<and> \<lparr>p_id = currentPlayerId s, p_roomId = r_id room, p_name = j_name b,
                               p_playerId = j_playerId b, p_score = 0, p_isHost = False\<rparr>
                          \<in> set (getPlayersByRoomId (snd (join_handler b s)) (r_id room))
                      \<and> set (getPlayersByRoomId (snd (join_handler b s)) (r_id room))
                          = {p \<in> snd ` set (players (snd (join_handler b s))). p_roomId p = r_id room}
                      \<and> (getPlayerById s (j_playerId b) \<noteq> None
                           \<longrightarrow> getAnswersByPlayerId (snd (join_handler b s)) (j_playerId b) = [])
                      \<and> (\<forall>pid. pid \<noteq> j_playerId b
                           \<longrightarrow> getPlayerById (snd (join_handler b s)) pid = getPlayerById s pid
                             \<and> getAnswersByPlayerId (snd (join_handler b s)) pid
                                 = getAnswersByPlayerId s pid)
                      \<and> quizRooms (snd (join_handler b s)) = quizRooms s
                      \<and> questions (snd (join_handler b s)) = questions s))))"
proof -
  have invalid: "joinQuizSchema b = None
            \<longrightarrow> join_handler b s = (Reply 500 (B_Message ErrorMessage), s)"
    by (simp add: join_handler_def)
  have valid: "(getQuizRoomByCode s (j_roomCode b) = None
            \<longrightarrow> join_handler b s = (Reply 404 (B_Message (Msg ''Room not found'')), s))
    \<and> (\<forall>room. getQuizRoomByCode s (j_roomCode b) = Some room \<longrightarrow>
          (r_status room \<noteq> ''waiting''
             \<longrightarrow> join_handler b s = (Reply 400 (B_Message (Msg ''Quiz has already started'')), s))
        \<and> (r_status room = ''waiting'' \<longrightarrow>
             (\<forall>e. getPlayerById s (j_playerId b) = Some e \<and> p_roomId e = r_id room
                \<longrightarrow> join_handler b s
                      = (Reply 400 (B_Message (Msg ''Player already joined this room'')), s))
           \<and> ((\<forall>e. getPlayerById s (j_playerId b) = Some e \<longrightarrow> p_roomId e \<noteq> r_id room)
                \<longrightarrow> fst (join_handler b s)
                      = Reply 200 (B_Join
                          \<lparr>p_id = currentPlayerId s, p_roomId = r_id room, p_name = j_name b,
                           p_playerId = j_playerId b, p_score = 0, p_isHost = False\<rparr>
                          room
                          (getPlayersByRoomId (snd (join_handler b s)) (r_id room)))
                  \<and> getPlayerById (snd (join_handler b s)) (j_playerId b)
                      = Some \<lparr>p_id = currentPlayerId s, p_roomId = r_id room, p_name = j_name b,
                           p_playerId = j_playerId b, p_score = 0, p_isHost = False\<rparr>
                  \<and> \<lparr>p_id = currentPlayerId s, p_roomId = r_id room, p_name = j_name b,
                           p_playerId = j_playerId b, p_score = 0, p_isHost = False\<rparr>
                      \<in> set (getPlayersByRoomId (snd (join_handler b s)) (r_id room))
                  \<and> set (getPlayersByRoomId (snd (join_handler b s)) (r_id room))
                      = {p \<in> snd ` set (players (snd (join_handler b s))). p_roomId p = r_id room}
                  \<and> (getPlayerById s (j_playerId b) \<noteq> None
                       \<longrightarrow> getAnswersByPlayerId (snd (join_handler b s)) (j_playerId b) = [])
                  \<and> (\<forall>pid. pid \<noteq> j_playerId b
                       \<longrightarrow> getPlayerById (snd (join_handler b s)) pid = getPlayerById s pid
                         \<and> getAnswersByPlayerId (snd (join_handler b s)) pid
                             = getAnswersByPlayerId s pid)
                  \<and> quizRooms (snd (join_handler b s)) = quizRooms s
                  \<and> questions (snd (join_handler b s)) = questions s)))"
    if v: "joinQuizSchema b = Some b"
  proof (intro conjI allI impI)
    show "join_handler b s = (Reply 404 (B_Message (Msg ''Room not found'')), s)"
      if "getQuizRoomByCode s (j_roomCode b) = None"
      using that v by (simp add: join_handler_def)
  next
    fix room
    assume room: "getQuizRoomByCode s (j_roomCode b) = Some room"
    show "join_handler b s = (Reply 400 (B_Message (Msg ''Quiz has already started'')), s)"
      if "r_status room \<noteq> ''waiting''"
      using that room v by (simp add: join_handler_def)
    assume waiting: "r_status room = ''waiting''"
    show "join_handler b s = (Reply 400 (B_Message (Msg ''Player already joined this room'')), s)"
      if "getPlayerById s (j_playerId b) = Some e \<and> p_roomId e = r_id room" for e
      using that room waiting v by (simp add: join_handler_def Let_def)
    assume other: "\<forall>e. getPlayerById s (j_playerId b) = Some e \<longrightarrow> p_roomId e \<noteq> r_id room"
    have ok: "store_ok s" using assms(1) by (rule reachable_ok)
    let ?ip = "\<lparr>ip_roomId = r_id room, ip_name = j_name b, ip_playerId = j_playerId b,
                ip_score = 0, ip_isHost = False\<rparr>"
    let ?s0 = "if getPlayerById s (j_playerId b) \<noteq> None
               then snd (cleanupPlayer (j_playerId b) s) else s"
    let ?np = "\<lparr>p_id = currentPlayerId s, p_roomId = r_id room, p_name = j_name b,
                p_playerId = j_playerId b, p_score = 0, p_isHost = False\<rparr>"
    have np: "fst (createPlayer ?ip ?s0) = ?np"
      by (simp add: createPlayer_def Let_def or_num_def cleanupPlayer_fields)
    have res: "join_handler b s
       = (Reply 200 (B_Join ?np room (getPlayersByRoomId (snd (createPlayer ?ip ?s0)) (r_id room))),
          snd (createPlayer ?ip ?s0))"
      using room waiting other v np
      by (auto simp: join_handler_def Let_def split_beta split: option.splits)
    show "fst (join_handler b s)
        = Reply 200 (B_Join ?np room (getPlayersByRoomId (snd (join_handler b s)) (r_id room)))"
      by (simp add: res)
    show stored: "getPlayerById (snd (join_handler b s)) (j_playerId b) = Some ?np"
      using np by (simp add: res createPlayer_players)
    show "?np \<in> set (getPlayersByRoomId (snd (join_handler b s)) (r_id room))"
      using getPlayerById_in_store [OF stored] by (simp add: set_getPlayersByRoomId)
    show "set (getPlayersByRoomId (snd (join_handler b s)) (r_id room))
        = {p \<in> snd ` set (players (snd (join_handler b s))). p_roomId p = r_id room}"
      by (rule set_getPlayersByRoomId)
    show "getAnswersByPlayerId (snd (join_handler b s)) (j_playerId b) = []"
      if "getPlayerById s (j_playerId b) \<noteq> None"
      using that cleanupPlayer_answers(1) [OF ok]
      by (auto simp: res createPlayer_answers)
    show "getPlayerById (snd (join_handler b s)) pid = getPlayerById s pid"
      if "pid \<noteq> j_playerId b" for pid
      using that cleanupPlayer_answers(3) [OF ok]
      by (auto simp: res createPlayer_players)
    show "getAnswersByPlayerId (snd (join_handler b s)) pid = getAnswersByPlayerId s pid"
      if "pid \<noteq> j_playerId b" for pid
      using that cleanupPlayer_answers(2) [OF ok]
      by (auto simp: res createPlayer_answers)
    show "quizRooms (snd (join_handler b s)) = quizRooms s"
      by (simp add: res createPlayer_def Let_def cleanupPlayer_fields)
    show "questions (snd (join_handler b s)) = questions s"
      by (simp add: res createPlayer_def Let_def cleanupPlayer_fields)
  qed
  show ?thesis
    by (rule conjI, rule invalid, rule impI, rule valid)
qed

theorem join_behaviour_witness:
  "reachable s_waiting \<and> reachable s_created \<and> joinQuizSchema join_p1 = Some join_p1
   \<and> map_option r_status (getQuizRoomByCode s_waiting (j_roomCode join_p1)) = Some ''waiting''
   \<and> map_option p_roomId (getPlayerById s_waiting (j_playerId join_p1))
       = map_option r_id (getQuizRoomByCode s_waiting (j_roomCode join_p1))
   \<and> join_handler join_p1 s_waiting
       = (Reply 400 (B_Message (Msg ''Player already joined this room'')), s_waiting)
   \<and> getPlayerById s_created (j_playerId join_p1) = None
   \<and> getPlayerById (snd (join_handler join_p1 s_created)) (j_playerId join_p1)
       = Some \<lparr>p_id = 2, p_roomId = 1, p_name = ''Alice'', p_playerId = ''p1'', p_score = 0,
               p_isHost = False\<rparr>"
proof -
  have r: "reachable s_waiting" "reachable s_created" by (rule reachable_examples)+
  have v: "joinQuizSchema join_p1 = Some join_p1" by code_simp
  have w: "map_option r_status (getQuizRoomByCode s_waiting (j_roomCode join_p1)) = Some ''waiting''"
    by code_simp
  have p: "map_option p_roomId (getPlayerById s_waiting (j_playerId join_p1))
       = map_option r_id (getQuizRoomByCode s_waiting (j_roomCode join_p1))"
    by code_simp
  from w obtain room where room: "getQuizRoomByCode s_waiting (j_roomCode join_p1) = Some room"
    and st: "r_status room = ''waiting''" by auto
  from p room obtain e where e: "getPlayerById s_waiting (j_playerId join_p1) = Some e"
    and er: "p_roomId e = r_id room" by auto
  have a: "join_handler join_p1 s_waiting
       = (Reply 400 (B_Message (Msg ''Player already joined this room'')), s_waiting)"
    using join_behaviour [OF r(1), of join_p1, THEN conjunct2, THEN mp, OF v] room st e er
    by blast
  have c: "map_option r_status (getQuizRoomByCode s_created (j_roomCode join_p1)) = Some ''waiting''"
    "map_option r_id (getQuizRoomByCode s_created (j_roomCode join_p1)) = Some 1"
    "getPlayerById s_created (j_playerId join_p1) = None"
    "currentPlayerId s_created = 2"
    by code_simp+
  from c(1,2) obtain room' where room': "getQuizRoomByCode s_created (j_roomCode join_p1) = Some room'"
    and st': "r_status room' = ''waiting''" and id': "r_id room' = 1" by auto
  have "getPlayerById (snd (join_handler join_p1 s_created)) (j_playerId join_p1)
      = Some \<lparr>p_id = currentPlayerId s_created, p_roomId = r_id room', p_name = j_name join_p1,
               p_playerId = j_playerId join_p1, p_score = 0, p_isHost = False\<rparr>"
    using join_behaviour [OF r(2), of join_p1, THEN conjunct2, THEN mp, OF v] room' st' c(3)
    by simp
  then have b: "getPlayerById (snd (join_handler join_p1 s_created)) (j_playerId join_p1)
       = Some \<lparr>p_id = 2, p_roomId = 1, p_name = ''Alice'', p_playerId = ''p1'', p_score = 0,
               p_isHost = False\<rparr>"
    by (simp add: c(4) id' join_p1_def)
  show ?thesis using r v w p a b c(3) by simp
qed

section \<open>Creating a player under a registered identity\<close>

lemma created_store_fields:
  "answers (created_store d code up s) = answers s"
  "players (created_store d code up s)
     = AList.update (c_hostId d)
         \<lparr>p_id = currentPlayerId s, p_roomId = currentRoomId s, p_name = ''Host'',
          p_playerId = c_hostId d, p_score = 0, p_isHost = True\<rparr> (players s)"
  by (simp_all add: created_store_def createPlayer_def createQuizRoom_def Let_def or_num_def
      fold_addQuestion_fields)

lemma createQuizSchema_hostId: "createQuizSchema b = Some d \<Longrightarrow> c_hostId d = cb_hostId b"
  by (auto simp: createQuizSchema_def Let_def split: if_splits)

lemma update_present_keys:
  "map_of al k = Some v \<Longrightarrow> map fst (AList.update k v' al) = map fst al"
  by (simp add: update_keys) (metis domI dom_map_of_conv_image_fst set_map)

text \<open>
  Claim C10. \<open>createPlayer\<close> for an identity that already has a player record puts the
  new record in the place of the old one (the keys of the player map and their order stay,
  so the identity still has one record), and leaves every other player, the rooms, the
  questions and the answers as they are; the answers recorded under the identity are still
  there. The create handler does this for a host identity that is already a player: after
  a successful create the identity's record is the new host record of the new room, the
  other keys of the player map are as before, and the answers are untouched.
\<close>

theorem createPlayer_replaces:
  assumes "getPlayerById s (ip_playerId ip) = Some old"
  shows "getPlayerById (snd (createPlayer ip s)) (ip_playerId ip)
           = Some \<lparr>p_id = currentPlayerId s, p_roomId = ip_roomId ip, p_name = ip_name ip,
                   p_playerId = ip_playerId ip, p_score = ip_score ip, p_isHost = ip_isHost ip\<rparr>
    \<and> map fst (players (snd (createPlayer ip s))) = map fst (players s)
    \<and> (\<forall>pid. pid \<noteq> ip_playerId ip
          \<longrightarrow> getPlayerById (snd (createPlayer ip s)) pid = getPlayerById s pid)
    \<and> quizRooms (snd (createPlayer ip s)) = quizRooms s
    \<and> questions (snd (createPlayer ip s)) = questions s
    \<and> answers (snd (createPlayer ip s)) = answers s
    \<and> getAnswersByPlayerId (snd (createPlayer ip s)) (ip_playerId ip)
        = getAnswersByPlayerId s (ip_playerId ip)
    \<and> (cb_hostId b = ip_playerId ip \<and> status_of (fst (create_handler b rnd up s)) = 200
          \<longrightarrow> getPlayerById (snd (create_handler b rnd up s)) (cb_hostId b)
                = Some \<lparr>p_id = currentPlayerId s, p_roomId = currentRoomId s, p_name = ''Host'',
                        p_playerId = cb_hostId b, p_score = 0, p_isHost = True\<rparr>
            \<and> map fst (players (snd (create_handler b rnd up s))) = map fst (players s)
            \<and> answers (snd (create_handler b rnd up s)) = answers s)"
proof -
  have m: "map_of (players s) (ip_playerId ip) = Some old"
    using assms by (simp add: getPlayerById_def)
  have a: "getPlayerById (snd (createPlayer ip s)) (ip_playerId ip)
           = Some \<lparr>p_id = currentPlayerId s, p_roomId = ip_roomId ip, p_name = ip_name ip,
                   p_playerId = ip_playerId ip, p_score = ip_score ip, p_isHost = ip_isHost ip\<rparr>"
    by (simp add: createPlayer_players) (simp add: createPlayer_def Let_def or_num_def)
  have b: "map fst (players (snd (createPlayer ip s))) = map fst (players s)"
    using m by (simp add: createPlayer_def Let_def update_present_keys)
  have c: "\<forall>pid. pid \<noteq> ip_playerId ip
          \<longrightarrow> getPlayerById (snd (createPlayer ip s)) pid = getPlayerById s pid"
    by (simp add: createPlayer_players)
  have d: "quizRooms (snd (createPlayer ip s)) = quizRooms s"
    "questions (snd (createPlayer ip s)) = questions s"
    "answers (snd (createPlayer ip s)) = answers s"
    by (simp_all add: createPlayer_def Let_def)
  have e: "getAnswersByPlayerId (snd (createPlayer ip s)) (ip_playerId ip)
        = getAnswersByPlayerId s (ip_playerId ip)"
    by (rule createPlayer_answers)
  have f: "cb_hostId b = ip_playerId ip \<and> status_of (fst (create_handler b rnd up s)) = 200
          \<longrightarrow> getPlayerById (snd (create_handler b rnd up s)) (cb_hostId b)
                = Some \<lparr>p_id = currentPlayerId s, p_roomId = currentRoomId s, p_name = ''Host'',
                        p_playerId = cb_hostId b, p_score = 0, p_isHost = True\<rparr>
            \<and> map fst (players (snd (create_handler b rnd up s))) = map fst (players s)
            \<and> answers (snd (create_handler b rnd up s)) = answers s"
  proof (intro impI, elim conjE)
    assume h: "cb_hostId b = ip_playerId ip"
      and st: "status_of (fst (create_handler b rnd up s)) = 200"
    from create_handler_cases [of b rnd up s] st obtain d code room where
      d: "createQuizSchema b = Some d" and
      res: "create_handler b rnd up s = (Reply 200 (B_Create code room), created_store d code up s)"
      by (auto simp: status_of_def)
    have hd: "c_hostId d = ip_playerId ip" using createQuizSchema_hostId [OF d] h by simp
    show "getPlayerById (snd (create_handler b rnd up s)) (cb_hostId b)
                = Some \<lparr>p_id = currentPlayerId s, p_roomId = currentRoomId s, p_name = ''Host'',
                        p_playerId = cb_hostId b, p_score = 0, p_isHost = True\<rparr>
            \<and> map fst (players (snd (create_handler b rnd up s))) = map fst (players s)
            \<and> answers (snd (create_handler b rnd up s)) = answers s"
      using m h hd
      by (simp add: res created_store_fields getPlayerById_def update_conv' update_present_keys)
  qed
  show ?thesis
    by (intro conjI a b c d e f)
qed

theorem createPlayer_replaces_witness:
  "map_option p_roomId (getPlayerById s_answered ''p1'') = Some 1
   \<and> length (getAnswersByPlayerId s_answered ''p1'') = 1
   \<and> status_of (fst (create_handler p1_body (\<lambda>k. 1) one_question s_answered)) = 200
   \<and> getPlayerById (snd (create_handler p1_body (\<lambda>k. 1) one_question s_answered)) ''p1''
       = Some \<lparr>p_id = 3, p_roomId = 2, p_name = ''Host'', p_playerId = ''p1'', p_score = 0,
               p_isHost = True\<rparr>
   \<and> map fst (players (snd (create_handler p1_body (\<lambda>k. 1) one_question s_answered)))
       = [''h1'', ''p1'']
   \<and> length (getAnswersByPlayerId
                (snd (create_handler p1_body (\<lambda>k. 1) one_question s_answered)) ''p1'') = 1"
proof -
  have c: "map_option p_roomId (getPlayerById s_answered ''p1'') = Some 1"
    "length (getAnswersByPlayerId s_answered ''p1'') = 1"
    "status_of (fst (create_handler p1_body (\<lambda>k. 1) one_question s_answered)) = 200"
    "currentPlayerId s_answered = 3" "currentRoomId s_answered = 2"
    "map fst (players s_answered) = [''h1'', ''p1'']"
    by code_simp+
  from c(1) obtain old where old: "getPlayerById s_answered ''p1'' = Some old" by auto
  have h: "cb_hostId p1_body = ''p1''" by (simp add: p1_body_def)
  let ?ip = "\<lparr>ip_roomId = 2, ip_name = ''Host'', ip_playerId = ''p1'', ip_score = 0,
              ip_isHost = True\<rparr>"
  have "getPlayerById (snd (create_handler p1_body (\<lambda>k. 1) one_question s_answered)) ''p1''
                = Some \<lparr>p_id = currentPlayerId s_answered, p_roomId = currentRoomId s_answered,
                        p_name = ''Host'', p_playerId = ''p1'', p_score = 0, p_isHost = True\<rparr>
            \<and> map fst (players (snd (create_handler p1_body (\<lambda>k. 1) one_question s_answered)))
                = map fst (players s_answered)
            \<and> answers (snd (create_handler p1_body (\<lambda>k. 1) one_question s_answered))
                = answers s_answered"
    using createPlayer_replaces [of s_answered ?ip old p1_body "\<lambda>k. 1" one_question] old h c(3)
    by simp
  then show ?thesis
    using c by (simp add: getAnswersByPlayerId_def)
qed

section \<open>The status of a room\<close>

lemma cleanupRoom_rooms:
  "quizRooms (snd (cleanupRoom code s)) = AList.delete code (quizRooms s)
   \<and> currentRoomId (snd (cleanupRoom code s)) = currentRoomId s"
proof (cases "map_of (quizRooms s) code")
  case None
  then have "code \<notin> fst ` set (quizRooms s)" by (simp add: map_of_eq_None_iff)
  then have "AList.delete code (quizRooms s) = quizRooms s" by (rule delete_id)
  with None show ?thesis by (simp add: cleanupRoom_def)
next
  case (Some room)
  then show ?thesis by (simp add: cleanupRoom_def Let_def)
qed

lemma created_store_rooms:
  "quizRooms (created_store d code up s)
     = AList.update code
         \<lparr>r_id = currentRoomId s, r_roomCode = code, r_hostId = c_hostId d, r_topic = c_topic d,
          r_questionCount = or_num (c_questionCount d) 10,
          r_timePerQuestion = or_num (c_timePerQuestion d) 10,
          r_status = ''waiting'', r_currentQuestionIndex = 0\<rparr> (quizRooms s)"
  "currentRoomId (created_store d code up s) = currentRoomId s + 1"
  by (simp_all add: created_store_def createPlayer_def createQuizRoom_def Let_def or_num_def
      or_str_def fold_addQuestion_fields)

lemma create_handler_rooms: "rooms_step (PostCreate b rnd up) s (snd (create_handler b rnd up s))"
proof -
  consider (failed) m where "create_handler b rnd up s = (Reply 500 (B_Message m), s)"
    | (created) d code room where "getQuizRoomByCode s code = None"
        "create_handler b rnd up s = (Reply 200 (B_Create code room), created_store d code up s)"
    using create_handler_cases [of b rnd up s] by blast
  then show ?thesis
  proof cases
    case failed
    then show ?thesis by (simp add: rooms_step_def)
  next
    case created
    have "\<exists>c room. map_of (quizRooms s) c = None
           \<and> quizRooms (created_store d code up s) = AList.update c room (quizRooms s)
           \<and> r_id room = currentRoomId s \<and> r_status room = ''waiting''
           \<and> currentRoomId (created_store d code up s) = currentRoomId s + 1"
      using created(1)
      by (intro exI [of _ code] exI [of _ "\<lparr>r_id = currentRoomId s, r_roomCode = code,
            r_hostId = c_hostId d, r_topic = c_topic d,
            r_questionCount = or_num (c_questionCount d) 10,
            r_timePerQuestion = or_num (c_timePerQuestion d) 10,
            r_status = ''waiting'', r_currentQuestionIndex = 0\<rparr>"])
         (simp add: created_store_rooms getQuizRoomByCode_def)
    then show ?thesis
      unfolding rooms_step_def created(2) snd_conv by blast
  qed
qed

lemma join_handler_rooms: "rooms_step (PostJoin b) s (snd (join_handler b s))"
  by (auto simp: rooms_step_def join_handler_def Let_def split_beta createPlayer_def
      cleanupPlayer_fields split: option.splits)

lemma clear_answers_handler_rooms:
  "rooms_step (PostClearAnswers b) s (snd (clear_answers_handler b s))"
  by (auto simp: rooms_step_def clear_answers_handler_def clearAnswersForPlayer_def Let_def
      split: option.splits)

lemma answer_handler_rooms: "rooms_step (PostAnswer b) s (snd (answer_handler b s))"
  using answer_handler_cases [of b s]
  by (auto simp: rooms_step_def answered_store_def updatePlayerScore_def createAnswer_def Let_def
      split: option.splits)

lemma cleanup_handler_rooms: "rooms_step (PostCleanup code b) s (snd (cleanup_handler code b s))"
  using cleanupRoom_rooms [of code s]
  by (auto simp: rooms_step_def cleanup_handler_def split_beta split: option.splits)

lemma leave_handler_rooms: "rooms_step (PostLeave b) s (snd (leave_handler b s))"
  by (auto simp: rooms_step_def leave_handler_def split_beta cleanupPlayer_fields
      split: option.splits)

lemma updateQuizRoom_rooms:
  assumes "map_of (quizRooms s) code = Some room"
  shows "quizRooms (snd (updateQuizRoom code u s)) = AList.update code (merge_updates room u) (quizRooms s)"
    and "currentRoomId (snd (updateQuizRoom code u s)) = currentRoomId s"
  using assms by (simp_all add: updateQuizRoom_def Let_def)

lemma rooms_step_same:
  "quizRooms s' = quizRooms s \<Longrightarrow> currentRoomId s' = currentRoomId s \<Longrightarrow> rooms_step r s s'"
  by (simp add: rooms_step_def)

lemma rooms_step_update:
  assumes "map_of (quizRooms s) code = Some room"
    and "r_status (merge_updates room u) = r_status room
         \<or> r_status (merge_updates room u) = ''finished''
         \<or> r_status (merge_updates room u) = ''active'' \<and> is_start code r"
    and "u_id u = None"
  shows "rooms_step r s (snd (updateQuizRoom code u s))"
proof -
  have "\<exists>c room0 room'. map_of (quizRooms s) c = Some room0
           \<and> quizRooms (snd (updateQuizRoom code u s)) = AList.update c room' (quizRooms s)
           \<and> r_id room' = r_id room0
           \<and> (r_status room' = r_status room0
                \<or> r_status room' = ''finished''
                \<or> r_status room' = ''active'' \<and> is_start c r)
           \<and> currentRoomId (snd (updateQuizRoom code u s)) = currentRoomId s"
    using assms
    by (intro exI [of _ code] exI [of _ room] exI [of _ "merge_updates room u"])
       (simp add: updateQuizRoom_rooms merge_updates_keep)
  then show ?thesis
    unfolding rooms_step_def by blast
qed

lemma socket_handler_rooms: "rooms_step (Socket m) s (snd (socket_handler m s))"
proof (cases "m_type m")
  case JoinRoom
  then show ?thesis
    by (intro rooms_step_same) (simp_all add: socket_handler_def split: option.splits)
next
  case LeaveRoom
  then show ?thesis
    by (intro rooms_step_same)
       (simp_all add: socket_handler_def Let_def cleanupPlayer_fields split: option.splits)
next
  case CleanupRoom
  then show ?thesis
    using cleanupRoom_rooms [of "m_roomCode m" s]
    by (auto simp: rooms_step_def socket_handler_def)
next
  case StartQuiz
  show ?thesis
  proof (cases "m_isHost m \<and> map_of (quizRooms s) (m_roomCode m) \<noteq> None")
    case True
    then obtain room where room: "map_of (quizRooms s) (m_roomCode m) = Some room" by blast
    have st: "is_start (m_roomCode m) (Socket m)" using True StartQuiz by (simp add: is_start_def)
    have "rooms_step (Socket m) s
            (snd (updateQuizRoom (m_roomCode m) (no_updates\<lparr>u_status := Some ''active''\<rparr>) s))"
      using st by (intro rooms_step_update [OF room]) (simp_all add: merge_updates_def no_updates_def)
    then show ?thesis
      using True StartQuiz room by (simp add: socket_handler_def getQuizRoomByCode_def Let_def)
  next
    case False
    then show ?thesis
      using StartQuiz
      by (intro rooms_step_same)
         (auto simp: socket_handler_def getQuizRoomByCode_def split: option.splits)
  qed
next
  case NextQuestion
  show ?thesis
  proof (cases "m_isHost m \<and> map_of (quizRooms s) (m_roomCode m) \<noteq> None")
    case True
    then obtain room where room: "map_of (quizRooms s) (m_roomCode m) = Some room" by blast
    have a: "rooms_step (Socket m) s
            (snd (updateQuizRoom (m_roomCode m) (no_updates\<lparr>u_status := Some ''finished''\<rparr>) s))"
      by (intro rooms_step_update [OF room]) (simp_all add: merge_updates_def no_updates_def)
    have b: "rooms_step (Socket m) s
            (snd (updateQuizRoom (m_roomCode m)
                    (no_updates\<lparr>u_currentQuestionIndex := Some i\<rparr>) s))" for i
      by (intro rooms_step_update [OF room]) (simp_all add: merge_updates_def no_updates_def)
    show ?thesis
      using True NextQuestion room a b
      by (simp add: socket_handler_def getQuizRoomByCode_def Let_def)
  next
    case False
    then show ?thesis
      using NextQuestion
      by (intro rooms_step_same)
         (auto simp: socket_handler_def getQuizRoomByCode_def split: option.splits)
  qed
next
  case QuizFinished
  show ?thesis
  proof (cases "m_isHost m \<and> map_of (quizRooms s) (m_roomCode m) \<noteq> None")
    case True
    then obtain room where room: "map_of (quizRooms s) (m_roomCode m) = Some room" by blast
    have a: "rooms_step (Socket m) s
            (snd (updateQuizRoom (m_roomCode m) (no_updates\<lparr>u_status := Some ''finished''\<rparr>) s))"
      by (intro rooms_step_update [OF room]) (simp_all add: merge_updates_def no_updates_def)
    show ?thesis
      using True QuizFinished room a
      by (simp add: socket_handler_def getQuizRoomByCode_def Let_def)
  next
    case False
    then show ?thesis
      using QuizFinished
      by (intro rooms_step_same)
         (auto simp: socket_handler_def getQuizRoomByCode_def split: option.splits)
  qed
next
  case Unknown
  then show ?thesis
    by (intro rooms_step_same) (simp_all add: socket_handler_def)
qed

lemma step_rooms: "rooms_step r s (snd (step r s))"
  by (cases r)
     (simp_all add: split_beta create_handler_rooms join_handler_rooms
        clear_answers_handler_rooms answer_handler_rooms cleanup_handler_rooms
        leave_handler_rooms socket_handler_rooms)

lemma update_present_values:
  "map_of al k = Some v \<Longrightarrow> f v' = f v \<Longrightarrow>
     map (\<lambda>x. f (snd x)) (AList.update k v' al) = map (\<lambda>x. f (snd x)) al"
  by (induction al) (auto split: if_splits)

lemma room_ids_step:
  assumes "room_ids_ok s" and "rooms_step r s s'"
  shows "room_ids_ok s'"
proof -
  from assms(2) consider
      (same) "quizRooms s' = quizRooms s" "currentRoomId s' = currentRoomId s"
    | (create) code room where "map_of (quizRooms s) code = None"
        "quizRooms s' = AList.update code room (quizRooms s)"
        "r_id room = currentRoomId s" "currentRoomId s' = currentRoomId s + 1"
    | (delete) code where "quizRooms s' = AList.delete code (quizRooms s)"
        "currentRoomId s' = currentRoomId s"
    | (update) code room room' where "map_of (quizRooms s) code = Some room"
        "quizRooms s' = AList.update code room' (quizRooms s)"
        "r_id room' = r_id room" "currentRoomId s' = currentRoomId s"
    unfolding rooms_step_def by blast
  then show ?thesis
  proof cases
    case same
    with assms(1) show ?thesis by (simp add: room_ids_ok_def)
  next
    case create
    then have "code \<notin> fst ` set (quizRooms s)" by (simp add: map_of_eq_None_iff)
    then have e: "quizRooms s' = quizRooms s @ [(code, room)]"
      using create(2) by (simp add: update_fresh)
    have "r_id room \<notin> (\<lambda>x. r_id (snd x)) ` set (quizRooms s)"
      using assms(1) create(3) by (auto simp: room_ids_ok_def)
    with assms(1) create(3,4) \<open>code \<notin> fst ` set (quizRooms s)\<close> show ?thesis
      unfolding room_ids_ok_def e by auto
  next
    case delete
    with assms(1) show ?thesis
      by (auto simp: room_ids_ok_def distinct_delete set_delete AList.delete_eq distinct_map_filter)
  next
    case update
    have v: "map (\<lambda>x. r_id (snd x)) (quizRooms s') = map (\<lambda>x. r_id (snd x)) (quizRooms s)"
      unfolding update(2) using update(1,3) by (rule update_present_values)
    have "\<forall>x \<in> set (quizRooms s'). r_id (snd x) < currentRoomId s'"
    proof
      fix x assume "x \<in> set (quizRooms s')"
      then have "r_id (snd x) \<in> set (map (\<lambda>x. r_id (snd x)) (quizRooms s'))" by simp
      then have "r_id (snd x) \<in> set (map (\<lambda>x. r_id (snd x)) (quizRooms s))" by (simp only: v)
      then show "r_id (snd x) < currentRoomId s'"
        using assms(1) update(4) by (auto simp: room_ids_ok_def)
    qed
    with assms(1) v update(2) show ?thesis
      by (simp add: room_ids_ok_def distinct_update)
  qed
qed

lemma reachable_room_ids: "reachable s \<Longrightarrow> room_ids_ok s"
proof (induction rule: reachable.induct)
  case reachable_init
  show ?case by (simp add: room_ids_ok_def init_def)
next
  case (reachable_step s r)
  then show ?case using step_rooms room_ids_step by blast
qed

lemma room_status_step:
  assumes "room_status_in A c i s" and "distinct (map fst (quizRooms s))"
    and "rooms_step r s s'" and "''finished'' \<in> A" and "''active'' \<in> A \<or> \<not> is_start c r"
  shows "room_status_in A c i s'"
proof -
  from assms(3) consider
      (same) "quizRooms s' = quizRooms s" "currentRoomId s' = currentRoomId s"
    | (create) code room where
        "quizRooms s' = AList.update code room (quizRooms s)"
        "r_id room = currentRoomId s" "currentRoomId s' = currentRoomId s + 1"
    | (delete) code where "quizRooms s' = AList.delete code (quizRooms s)"
        "currentRoomId s' = currentRoomId s"
    | (update) code room room' where "map_of (quizRooms s) code = Some room"
        "quizRooms s' = AList.update code room' (quizRooms s)"
        "r_id room' = r_id room"
        "r_status room' = r_status room \<or> r_status room' = ''finished''
           \<or> r_status room' = ''active'' \<and> is_start code r"
        "currentRoomId s' = currentRoomId s"
    unfolding rooms_step_def by blast
  then show ?thesis
  proof cases
    case same
    with assms(1) show ?thesis by (simp add: room_status_in_def)
  next
    case create
    with assms(1,2) show ?thesis
      by (auto simp: room_status_in_def set_update_distinct)
  next
    case delete
    with assms(1) show ?thesis
      by (auto simp: room_status_in_def set_delete)
  next
    case update
    have old: "(code, room) \<in> set (quizRooms s)" using update(1) by (rule map_of_SomeD)
    have new: "r_id room' = i \<Longrightarrow> code = c \<and> r_status room' \<in> A"
    proof -
      assume "r_id room' = i"
      then have "r_id room = i" using update(3) by simp
      with assms(1) old have c: "code = c" and st: "r_status room \<in> A"
        by (auto simp: room_status_in_def)
      from update(4) c st assms(4,5) show ?thesis by auto
    qed
    show ?thesis
      using assms(1,2) update(5) new
      by (auto simp: room_status_in_def update(2) set_update_distinct)
  qed
qed

lemma room_status_run:
  assumes "store_ok s" and "room_status_in A c i s" and "''finished'' \<in> A"
    and "''active'' \<in> A \<or> (\<forall>r \<in> set rs. \<not> is_start c r)"
  shows "room_status_in A c i (run rs s)"
  using assms
proof (induction rs arbitrary: s)
  case Nil
  then show ?case by simp
next
  case (Cons r rs)
  have d: "distinct (map fst (quizRooms s))" using Cons.prems(1) by (simp add: ok_defs)
  have "room_status_in A c i (snd (step r s))"
    using Cons.prems(2) d step_rooms Cons.prems(3)
  proof (rule room_status_step)
    show "''active'' \<in> A \<or> \<not> is_start c r" using Cons.prems(4) by auto
  qed
  moreover have "store_ok (snd (step r s))" using Cons.prems(1) by (rule step_ok)
  moreover have "''active'' \<in> A \<or> (\<forall>r \<in> set rs. \<not> is_start c r)"
    using Cons.prems(4) by auto
  ultimately have "room_status_in A c i (run rs (snd (step r s)))"
    using Cons.prems(3) by (intro Cons.IH)
  then show ?case by simp
qed

lemma room_status_start:
  assumes "reachable s" and "getQuizRoomByCode s c = Some r0"
  shows "room_status_in {r_status r0} c (r_id r0) s"
proof -
  have ids: "room_ids_ok s" using assms(1) by (rule reachable_room_ids)
  have mem: "(c, r0) \<in> set (quizRooms s)"
    using assms(2) by (auto simp: getQuizRoomByCode_def dest: map_of_SomeD)
  have "x = (c, r0)" if "x \<in> set (quizRooms s)" "r_id (snd x) = r_id r0" for x
  proof -
    have "inj_on (\<lambda>x. r_id (snd x)) (set (quizRooms s))"
      using ids by (simp add: room_ids_ok_def distinct_map)
    then show ?thesis
      using that mem inj_onD [of "\<lambda>x. r_id (snd x)" "set (quizRooms s)" x "(c, r0)"] by simp
  qed
  then have "\<forall>x \<in> set (quizRooms s). r_id (snd x) = r_id r0
      \<longrightarrow> fst x = c \<and> r_status (snd x) \<in> {r_status r0}"
    by fastforce
  moreover have "r_id r0 < currentRoomId s"
    using ids mem by (force simp: room_ids_ok_def)
  ultimately show ?thesis
    by (simp add: room_status_in_def)
qed

lemma room_status_mono: "room_status_in A c i s \<Longrightarrow> A \<subseteq> B \<Longrightarrow> room_status_in B c i s"
  by (auto simp: room_status_in_def)

text \<open>
  Claim C1 says that the status of a room only moves forward and that starting needs a
  waiting room. The start handler does not read the status: it writes \<^verbatim>\<open>active\<close> for any
  stored room. Here the room \<^verbatim>\<open>AAAAAA\<close> is finished, the host sends a start message, and
  the room is active again.
\<close>

theorem start_reopens_finished_room:
  "map_option r_status (getQuizRoomByCode s_finished ''AAAAAA'') = Some ''finished''
   \<and> map_option r_status
        (getQuizRoomByCode (snd (step (Socket (host_msg StartQuiz)) s_finished)) ''AAAAAA'')
       = Some ''active''"
  by code_simp

text \<open>
  Claim C1, amended. Take a room of a reachable store and any sequence of requests after
  it. If a room with the same id is stored afterwards, it is stored under the same code,
  and: if the room had left \<^verbatim>\<open>waiting\<close> (it was active or finished), it is not waiting;
  if the room was finished and the sequence holds no start message with the host flag for
  its code, it is still finished. (A start message sets \<^verbatim>\<open>active\<close> whatever the status
  was; it has no guard on \<^verbatim>\<open>waiting\<close>.)
\<close>

theorem status_never_back_to_waiting:
  assumes "reachable s" and "getQuizRoomByCode s c = Some r0"
    and "getQuizRoomByCode (run rs s) c' = Some r1" and "r_id r1 = r_id r0"
  shows "c' = c
    \<and> (r_status r0 \<noteq> ''waiting'' \<longrightarrow> r_status r1 \<noteq> ''waiting'')
    \<and> (r_status r0 = ''finished'' \<and> (\<forall>r \<in> set rs. \<not> is_start c r)
         \<longrightarrow> r_status r1 = ''finished'')"
proof -
  have ok: "store_ok s" using assms(1) by (rule reachable_ok)
  have start: "room_status_in {r_status r0} c (r_id r0) s"
    using assms(1,2) by (rule room_status_start)
  have mem: "(c', r1) \<in> set (quizRooms (run rs s))"
    using assms(3) by (auto simp: getQuizRoomByCode_def dest: map_of_SomeD)
  have use: "c' = c \<and> r_status r1 \<in> A" if "room_status_in A c (r_id r0) (run rs s)" for A
    using that mem assms(4) by (force simp: room_status_in_def)
  have "room_status_in UNIV c (r_id r0) (run rs s)"
    using ok room_status_mono [OF start, of UNIV] by (intro room_status_run) simp_all
  then have a: "c' = c" using use by blast
  have b: "r_status r1 \<noteq> ''waiting''" if "r_status r0 \<noteq> ''waiting''"
  proof -
    have "room_status_in (- {''waiting''}) c (r_id r0) (run rs s)"
      using ok room_status_mono [OF start, of "- {''waiting''}"] that
      by (intro room_status_run) simp_all
    then show ?thesis using use by blast
  qed
  have c: "r_status r1 = ''finished''"
    if "r_status r0 = ''finished'' \<and> (\<forall>r \<in> set rs. \<not> is_start c r)"
  proof -
    have "room_status_in {''finished''} c (r_id r0) (run rs s)"
      using ok start that by (intro room_status_run) simp_all
    then show ?thesis using use by blast
  qed
  show ?thesis using a b c by blast
qed

theorem status_never_back_to_waiting_witness:
  "reachable s_active
   \<and> map_option r_status (getQuizRoomByCode s_active ''AAAAAA'') = Some ''active''
   \<and> map_option r_id (getQuizRoomByCode s_active ''AAAAAA'') = Some 1
   \<and> map_option r_id (getQuizRoomByCode
        (run [PostAnswer answer_p1, Socket (host_msg QuizFinished), PostJoin join_p1] s_active)
        ''AAAAAA'') = Some 1
   \<and> map_option r_status (getQuizRoomByCode
        (run [PostAnswer answer_p1, Socket (host_msg QuizFinished), PostJoin join_p1] s_active)
        ''AAAAAA'') \<noteq> Some ''waiting''"
proof -
  let ?rs = "[PostAnswer answer_p1, Socket (host_msg QuizFinished), PostJoin join_p1]"
  have r: "reachable s_active" by (rule reachable_examples)
  have e: "map_option r_status (getQuizRoomByCode s_active ''AAAAAA'') = Some ''active''"
    "map_option r_id (getQuizRoomByCode s_active ''AAAAAA'') = Some 1"
    "map_option r_id (getQuizRoomByCode (run ?rs s_active) ''AAAAAA'') = Some 1"
    by code_simp+
  from e(1,2) obtain r0 where r0: "getQuizRoomByCode s_active ''AAAAAA'' = Some r0"
    "r_status r0 = ''active''" "r_id r0 = 1" by auto
  from e(3) obtain r1 where r1: "getQuizRoomByCode (run ?rs s_active) ''AAAAAA'' = Some r1"
    "r_id r1 = 1" by auto
  have "r_status r1 \<noteq> ''waiting''"
    using status_never_back_to_waiting [OF r r0(1) r1(1)] r0(2,3) r1(2) by simp
  then show ?thesis using r e r1(1) by simp
qed

section \<open>The score of a player\<close>















end
